theory Spec2Isabelle
  imports Complex_Main "HOL-Library.Sublist"
begin

section \<open>The release driver \<open>publish.py\<close>\<close>

text \<open>
  The script drives three external commands (build, pack, push) and one directory
  lookup. Everything outside the script is a parameter of the model:
  \<^item> the operating system is a \<open>world\<close>: the process environment, the directory
    listings in scan order, and what \<open>stat\<close> reports for a path, if it reports
    anything. The record is extensible, so a world may hold anything else a command
    can depend on;
  \<^item> \<open>subprocess.run(command, shell=True)\<close> is a function \<open>shell\<close> from the command
    string and the world to the return code and the world the command leaves behind;
  \<^item> \<open>load_dotenv()\<close> is a function on worlds (it may add variables to the environment).
  The script itself is modelled on a process state: that world, and the trace of what
  the script did (lines printed, commands handed to the shell, directories scanned).
\<close>

subsection \<open>Data\<close>

datatype kind = RegularFile | Directory | OtherEntry

text \<open>
  \<open>st_ctime w path\<close> is the field \<open>st_ctime\<close> of \<open>os.stat(path)\<close>, the value
  \<open>os.path.getctime\<close> returns; it is \<open>None\<close> where \<open>os.stat\<close> fails (a symbolic
  link whose target is gone, a directory that may be listed but not searched).
\<close>

record world =
  environ :: "string \<rightharpoonup> string"
  scandir :: "string \<Rightarrow> string list"
  st_ctime :: "string \<rightharpoonup> real"
  st_kind :: "string \<Rightarrow> kind"

datatype event = Printed string | Ran string | Scanned string

record 'w proc =
  os :: 'w
  trace :: "event list"

text \<open>
  The exceptions that can leave a function of the script: \<open>sys.exit(n)\<close> raises
  \<open>SystemExit(n)\<close>, \<open>os.stat\<close> raises \<open>OSError\<close> (with the path), \<open>max\<close> raises
  \<open>ValueError\<close> on an empty sequence. Nothing in the script catches any of them.
\<close>

datatype error = SystemExit int | OSError string | ValueError

type_synonym ('w, 'r) action = "'w proc \<Rightarrow> (error + 'r) \<times> 'w proc"

definition and_then :: "('w, 'a) action \<Rightarrow> ('a \<Rightarrow> ('w, 'b) action) \<Rightarrow> ('w, 'b) action" where
  "and_then m f s = (case m s of (Inl e, s') \<Rightarrow> (Inl e, s') | (Inr x, s') \<Rightarrow> f x s')"

definition print :: "string \<Rightarrow> 'w proc \<Rightarrow> 'w proc" where
  "print msg s = s\<lparr>trace := trace s @ [Printed msg]\<rparr>"

subsection \<open>\<open>run_command\<close>\<close>

text \<open>
  \<^verbatim>\<open>
  def run_command(command):
      result = subprocess.run(command, shell=True)
      if result.returncode != 0:
          sys.exit(result.returncode)
  \<close>
\<close>

definition run_command ::
    "(string \<Rightarrow> 'w \<Rightarrow> int \<times> 'w) \<Rightarrow> string \<Rightarrow> ('w, unit) action" where
  "run_command shell command s =
     (let (returncode, w') = shell command (os s);
          s' = s\<lparr>os := w', trace := trace s @ [Ran command]\<rparr>
      in if returncode \<noteq> 0 then (Inl (SystemExit returncode), s') else (Inr (), s'))"

subsection \<open>Paths\<close>

text \<open>
  \<open>pathlib\<close> on POSIX keeps a path as its root and the list of its components.
  \<open>Path(arg)\<close> splits the string at \<open>/\<close> and drops the empty components and the
  components \<open>.\<close> (it keeps \<open>..\<close>); the root is \<open>/\<close> for one leading slash and for three
  or more, \<open>//\<close> for exactly two, and empty for a relative path. \<open>str\<close> of a path
  joins the components again, and is \<open>.\<close> for the relative path with no component.
\<close>

fun split_sep :: "string \<Rightarrow> string list" where
  "split_sep [] = [[]]"
| "split_sep (c # cs) =
     (case split_sep cs of
        [] \<Rightarrow> [[c]]
      | x # xs \<Rightarrow> if c = CHR ''/'' then [] # x # xs else (c # x) # xs)"

fun join_sep :: "string list \<Rightarrow> string" where
  "join_sep [] = []"
| "join_sep [x] = x"
| "join_sep (x # y # ys) = x @ ''/'' @ join_sep (y # ys)"

definition splitroot :: "string \<Rightarrow> string \<times> string" where
  "splitroot part =
     (let stripped = dropWhile (\<lambda>c. c = CHR ''/'') part;
          n = length part - length stripped
      in if n = 0 then ([], part) else if n = 2 then (''//'', stripped) else (''/'', stripped))"

type_synonym path = "string \<times> string list"

definition Path :: "string \<Rightarrow> path" where
  "Path arg =
     (let (anchor, rel) = splitroot arg
      in (anchor, filter (\<lambda>x. x \<noteq> [] \<and> x \<noteq> ''.'') (split_sep rel)))"

definition path_str :: "path \<Rightarrow> string" where
  "path_str p =
     (case p of (anchor, names) \<Rightarrow>
        if anchor = [] \<and> names = [] then ''.'' else anchor @ join_sep names)"

text \<open>The path of an entry \<open>name\<close> of the directory \<open>p\<close>; the name is not parsed again.\<close>

definition make_child_relpath :: "path \<Rightarrow> string \<Rightarrow> path" where
  "make_child_relpath p name = (case p of (anchor, names) \<Rightarrow> (anchor, names @ [name]))"

subsection \<open>\<open>get_latest_package\<close>\<close>

text \<open>
  \<open>fnmatch name pat\<close>: shell-style matching of an entry name against a pattern, for
  the two constructs the pattern \<open>*.nupkg\<close> is made of: \<open>*\<close> matches any run of
  characters (also none, also a leading dot: \<open>pathlib\<close> does not hide dot files), every
  other character matches itself, case-sensitively (POSIX).
\<close>

fun fnmatch :: "string \<Rightarrow> string \<Rightarrow> bool" where
  "fnmatch [] [] = True"
| "fnmatch (c # cs) [] = False"
| "fnmatch [] (p # ps) = (p = CHR ''*'' \<and> fnmatch [] ps)"
| "fnmatch (c # cs) (p # ps) =
     (if p = CHR ''*'' then fnmatch (c # cs) ps \<or> fnmatch cs (p # ps)
      else p = c \<and> fnmatch cs ps)"

text \<open>
  \<open>Path(directory).glob(pattern)\<close> for a pattern of one component: the entries that
  \<open>os.scandir\<close> lists for the directory, in scan order, whose name matches, each as
  the path of that entry under the directory. No entry is opened or \<open>stat\<close>ed, so its
  kind plays no role. A directory that does not exist or cannot be read has no entries.
\<close>

definition glob :: "'a world_scheme \<Rightarrow> string \<Rightarrow> string \<Rightarrow> string list" where
  "glob w directory pattern =
     (let parent = Path directory
      in map (\<lambda>name. path_str (make_child_relpath parent name))
           (filter (\<lambda>name. fnmatch name pattern) (scandir w (path_str parent))))"

text \<open>\<open>os.path.getctime(path)\<close> is \<open>os.stat(path).st_ctime\<close>; \<open>os.stat\<close> raises where it fails.\<close>

definition getctime :: "'a world_scheme \<Rightarrow> string \<Rightarrow> error + real" where
  "getctime w path = (case st_ctime w path of None \<Rightarrow> Inl (OSError path) | Some t \<Rightarrow> Inr t)"

text \<open>
  Python's \<open>max(items, key=f)\<close>: the key of every item is computed, in order, the first
  item included, and an exception of the key function ends the call. The running best
  is replaced only by an item whose key is strictly greater (\<open>>\<close>).
\<close>

fun max_from :: "('a \<Rightarrow> error + real) \<Rightarrow> 'a \<Rightarrow> real \<Rightarrow> 'a list \<Rightarrow> error + 'a" where
  "max_from key best best_key [] = Inr best"
| "max_from key best best_key (x # xs) =
     (case key x of
        Inl e \<Rightarrow> Inl e
      | Inr k \<Rightarrow> if k > best_key then max_from key x k xs else max_from key best best_key xs)"

fun max_key :: "('a \<Rightarrow> error + real) \<Rightarrow> 'a list \<Rightarrow> error + 'a" where
  "max_key key [] = Inl ValueError"
| "max_key key (x # xs) = (case key x of Inl e \<Rightarrow> Inl e | Inr k \<Rightarrow> max_from key x k xs)"

text \<open>
  \<^verbatim>\<open>
  def get_latest_package(directory):
      packages = list(Path(directory).glob('*.nupkg'))
      if not packages:
          print("Error: No .nupkg files found.")
          sys.exit(1)
      return max(packages, key=os.path.getctime)
  \<close>
\<close>

definition get_latest_package :: "string \<Rightarrow> ('a world_scheme, string) action" where
  "get_latest_package directory s =
     (let packages = glob (os s) directory ''*.nupkg'';
          s' = s\<lparr>trace := trace s @ [Scanned directory]\<rparr>
      in if packages = [] then (Inl (SystemExit 1), print ''Error: No .nupkg files found.'' s')
         else (max_key (getctime (os s)) packages, s'))"

subsection \<open>\<open>main\<close>\<close>

text \<open>
  \<^verbatim>\<open>
  def main():
      load_dotenv()
      nuget_api_key = os.getenv('NUGET_API_KEY')
      if not nuget_api_key:
          print("Error: NUGET_API_KEY environment variable is not set.")
          sys.exit(1)
      run_command('dotnet build -c Release src/')
      run_command('dotnet pack -c Release src/')
      package_path = get_latest_package('src/Monads/bin/Release')
      run_command(f'dotnet nuget push {package_path} -k {nuget_api_key} -s https://api.nuget.org/v3/index.json')
  \<close>
  \<open>not nuget_api_key\<close> holds for \<open>None\<close> and for the empty string.
\<close>

definition build_command :: string where
  "build_command = ''dotnet build -c Release src/''"

definition pack_command :: string where
  "pack_command = ''dotnet pack -c Release src/''"

definition release_dir :: string where
  "release_dir = ''src/Monads/bin/Release''"

definition push_command :: "string \<Rightarrow> string \<Rightarrow> string" where
  "push_command package_path nuget_api_key =
     ''dotnet nuget push '' @ package_path @ '' -k '' @ nuget_api_key
       @ '' -s https://api.nuget.org/v3/index.json''"

definition missing_key_message :: string where
  "missing_key_message = ''Error: NUGET_API_KEY environment variable is not set.''"

definition main ::
    "('a world_scheme \<Rightarrow> 'a world_scheme) \<Rightarrow> (string \<Rightarrow> 'a world_scheme \<Rightarrow> int \<times> 'a world_scheme)
      \<Rightarrow> ('a world_scheme, unit) action" where
  "main load_dotenv shell s0 =
     (let s = s0\<lparr>os := load_dotenv (os s0)\<rparr>;
          nuget_api_key = environ (os s) ''NUGET_API_KEY''
      in case nuget_api_key of
           None \<Rightarrow> (Inl (SystemExit 1), print missing_key_message s)
         | Some k \<Rightarrow>
             if k = [] then (Inl (SystemExit 1), print missing_key_message s)
             else
               and_then (run_command shell build_command) (\<lambda>_.
               and_then (run_command shell pack_command) (\<lambda>_.
               and_then (get_latest_package release_dir) (\<lambda>package_path.
               run_command shell (push_command package_path k)))) s)"

text \<open>
  The script runs \<open>main()\<close> at top level. When \<open>main\<close> returns, the interpreter
  ends the process with \<open>exit(0)\<close>; when \<open>SystemExit(n)\<close> reaches the top, with
  \<open>exit(n)\<close>; when another exception does, with \<open>exit(1)\<close> (after writing the
  traceback to the standard error stream, which the trace does not record).
  \<open>exit_status\<close> is that argument of \<open>exit\<close>. \<open>script\<close> is one run of the process
  from a world \<open>w\<close>: it starts with an empty trace and gives the argument of \<open>exit\<close>
  and the final state.
\<close>

definition exit_status :: "error + unit \<Rightarrow> int" where
  "exit_status r = (case r of Inl (SystemExit n) \<Rightarrow> n | Inl _ \<Rightarrow> 1 | Inr _ \<Rightarrow> 0)"

definition script ::
    "('a world_scheme \<Rightarrow> 'a world_scheme) \<Rightarrow> (string \<Rightarrow> 'a world_scheme \<Rightarrow> int \<times> 'a world_scheme)
      \<Rightarrow> 'a world_scheme \<Rightarrow> int \<times> 'a world_scheme proc" where
  "script load_dotenv shell w =
     (case main load_dotenv shell \<lparr>os = w, trace = []\<rparr> of (r, s) \<Rightarrow> (exit_status r, s))"

text \<open>
  What the parent of the process sees (POSIX \<open>wait\<close>) is the low eight bits of the
  argument of \<open>exit\<close>: \<open>sys.exit(-9)\<close> ends the process with status 247.
\<close>

definition wait_status :: "int \<Rightarrow> int" where
  "wait_status n = n mod 256"

subsection \<open>Example worlds\<close>

text \<open>
  Four directories:
  \<^item> \<open>rel\<close>: three packages, the last two with the same timestamp, and a file that is
    no package;
  \<^item> \<open>broken\<close>: one entry \<open>x.nupkg\<close>, a symbolic link whose target is gone;
  \<^item> \<open>tied\<close>: two packages with the same timestamp, then such a link;
  \<^item> \<open>nested\<close>: a subdirectory \<open>d.nupkg\<close>, then such a link.
\<close>

definition demo_world :: world where
  "demo_world =
     \<lparr>environ = Map.empty,
      scandir = (\<lambda>d. if d = ''rel'' then [''a.nupkg'', ''notes.txt'', ''b.nupkg'', ''c.nupkg'']
                     else if d = ''broken'' then [''x.nupkg'']
                     else if d = ''tied'' then [''a.nupkg'', ''b.nupkg'', ''x.nupkg'']
                     else if d = ''nested'' then [''d.nupkg'', ''x.nupkg'']
                     else []),
      st_ctime = map_of [(''rel/a.nupkg'', 10), (''rel/notes.txt'', 40), (''rel/b.nupkg'', 30),
                         (''rel/c.nupkg'', 30), (''tied/a.nupkg'', 30), (''tied/b.nupkg'', 30),
                         (''nested/d.nupkg'', 5)],
      st_kind = (\<lambda>p. if p = ''nested/d.nupkg'' then Directory
                     else if p \<in> {''broken/x.nupkg'', ''tied/x.nupkg'', ''nested/x.nupkg''}
                       then OtherEntry
                     else RegularFile)\<rparr>"

text \<open>
  A world with nothing in any directory and at most the credential in the environment,
  and a shell whose build, pack and push steps return given codes; its pack step
  leaves the given entries in the release directory.
\<close>

definition mock_world :: "string option \<Rightarrow> world" where
  "mock_world key =
     \<lparr>environ = (\<lambda>v. if v = ''NUGET_API_KEY'' then key else None),
      scandir = (\<lambda>d. []),
      st_ctime = (\<lambda>p. Some 0),
      st_kind = (\<lambda>p. RegularFile)\<rparr>"

definition mock_shell :: "int \<Rightarrow> int \<Rightarrow> int \<Rightarrow> string list \<Rightarrow> string \<Rightarrow> world \<Rightarrow> int \<times> world" where
  "mock_shell rc_build rc_pack rc_push created command w =
     (if command = build_command then (rc_build, w)
      else if command = pack_command
        then (rc_pack, w\<lparr>scandir := (scandir w)(release_dir := scandir w release_dir @ created)\<rparr>)
      else (rc_push, w))"

section \<open>Properties of the parts\<close>

subsection \<open>Paths\<close>

lemma join_sep_Cons: "xs \<noteq> [] \<Longrightarrow> join_sep (x # xs) = x @ ''/'' @ join_sep xs"
  by (cases xs) simp_all

lemma join_sep_snoc: "xs \<noteq> [] \<Longrightarrow> join_sep (xs @ [name]) = join_sep xs @ ''/'' @ name"
proof (induction xs)
  case Nil
  then show ?case by simp
next
  case (Cons x xs)
  show ?case
  proof (cases "xs = []")
    case True
    then show ?thesis by simp
  next
    case False
    then show ?thesis using Cons.IH by (simp add: join_sep_Cons)
  qed
qed

lemma split_sep_not_Nil: "split_sep cs \<noteq> []"
  by (cases cs) (simp_all split: list.split)

lemma join_split_sep: "join_sep (split_sep cs) = cs"
proof (induction cs)
  case Nil
  show ?case by simp
next
  case (Cons c cs)
  obtain x xs where s: "split_sep cs = x # xs"
    using split_sep_not_Nil [of cs] by (cases "split_sep cs") auto
  have "join_sep ((c # x) # xs) = c # join_sep (x # xs)"
    by (cases xs) simp_all
  then show ?case using Cons.IH s by simp
qed

text \<open>
  A directory given in normal form (relative, no empty component, no component \<open>.\<close>,
  such as \<open>src/Monads/bin/Release\<close>) is scanned under its own name, and the path of
  an entry is \<open>directory/name\<close>.
\<close>

lemma Path_normal:
  assumes "\<forall>x\<in>set (split_sep directory). x \<noteq> [] \<and> x \<noteq> ''.''"
  shows "Path directory = ([], split_sep directory)"
proof -
  have "directory \<noteq> []" using assms by (cases directory) auto
  then obtain c cs where d: "directory = c # cs" by (cases directory) auto
  have "c \<noteq> CHR ''/''"
    using assms split_sep_not_Nil [of cs] unfolding d by (auto split: list.splits)
  then have "splitroot directory = ([], directory)"
    unfolding d by (simp add: splitroot_def)
  moreover have "filter (\<lambda>x. x \<noteq> [] \<and> x \<noteq> ''.'') (split_sep directory) = split_sep directory"
    using assms by (simp add: filter_id_conv)
  ultimately show ?thesis by (simp add: Path_def)
qed

lemma path_str_normal:
  assumes "\<forall>x\<in>set (split_sep directory). x \<noteq> [] \<and> x \<noteq> ''.''"
  shows "path_str (Path directory) = directory"
    and "path_str (make_child_relpath (Path directory) name) = directory @ ''/'' @ name"
  using split_sep_not_Nil [of directory]
  by (simp_all add: Path_normal [OF assms] path_str_def make_child_relpath_def
      join_split_sep join_sep_snoc)

lemma split_sep_simps:
  "split_sep ''rel'' = [''rel'']" "split_sep ''broken'' = [''broken'']"
  "split_sep ''tied'' = [''tied'']" "split_sep ''nested'' = [''nested'']"
  "split_sep release_dir = [''src'', ''Monads'', ''bin'', ''Release'']"
  by (simp_all add: release_dir_def)

lemma path_str_release_dir:
  "path_str (Path release_dir) = release_dir"
  "path_str (make_child_relpath (Path release_dir) name) = release_dir @ ''/'' @ name"
  by (simp_all add: path_str_normal split_sep_simps)

lemma path_str_demo:
  "path_str (Path ''rel'') = ''rel''"
  "path_str (make_child_relpath (Path ''rel'') name) = ''rel/'' @ name"
  "path_str (Path ''broken'') = ''broken''"
  "path_str (make_child_relpath (Path ''broken'') name) = ''broken/'' @ name"
  "path_str (Path ''tied'') = ''tied''"
  "path_str (make_child_relpath (Path ''tied'') name) = ''tied/'' @ name"
  "path_str (Path ''nested'') = ''nested''"
  "path_str (make_child_relpath (Path ''nested'') name) = ''nested/'' @ name"
  by (simp_all add: path_str_normal split_sep_simps)

text \<open>Directories that are not in normal form: \<open>pathlib\<close> rewrites them.\<close>

lemma path_str_normalised:
  "path_str (Path ''rel/'') = ''rel''"
  "path_str (Path ''./rel'') = ''rel''"
  "path_str (Path ''.'') = ''.''"
  "path_str (Path '''') = ''.''"
  "path_str (make_child_relpath (Path ''./rel//'') ''a.nupkg'') = ''rel/a.nupkg''"
  "path_str (make_child_relpath (Path '''') ''a.nupkg'') = ''a.nupkg''"
  "path_str (make_child_relpath (Path ''///opt/rel'') ''a.nupkg'') = ''/opt/rel/a.nupkg''"
  "path_str (make_child_relpath (Path ''//opt/rel'') ''a.nupkg'') = ''//opt/rel/a.nupkg''"
  by (simp_all add: Path_def splitroot_def path_str_def make_child_relpath_def)

subsection \<open>Pattern matching and the maximum\<close>

lemma fnmatch_literal:
  "CHR ''*'' \<notin> set lit \<Longrightarrow> fnmatch name lit \<longleftrightarrow> name = lit"
proof (induction name arbitrary: lit)
  case Nil
  then show ?case by (cases lit) auto
next
  case (Cons c cs)
  then show ?case by (cases lit) auto
qed

lemma fnmatch_star_literal:
  assumes "CHR ''*'' \<notin> set lit"
  shows "fnmatch name (CHR ''*'' # lit) \<longleftrightarrow> suffix lit name"
proof (induction name)
  case Nil
  show ?case using assms by (auto simp: fnmatch_literal)
next
  case (Cons c cs)
  have "fnmatch (c # cs) (CHR ''*'' # lit) \<longleftrightarrow> fnmatch (c # cs) lit \<or> fnmatch cs (CHR ''*'' # lit)"
    by simp
  also have "\<dots> \<longleftrightarrow> lit = c # cs \<or> suffix lit cs"
    using assms Cons.IH by (auto simp: fnmatch_literal)
  also have "\<dots> \<longleftrightarrow> suffix lit (c # cs)"
    by (simp add: suffix_Cons)
  finally show ?case .
qed

lemma fnmatch_nupkg: "fnmatch name ''*.nupkg'' \<longleftrightarrow> suffix ''.nupkg'' name"
  using fnmatch_star_literal [of "''.nupkg''" name] by simp

text \<open>
  When every key is defined (\<open>key x = Inr (f x)\<close>), the running maximum ends at the
  first item whose key is the greatest: everything before it is strictly smaller,
  nothing after it is greater.
\<close>

lemma max_from_first:
  assumes "\<forall>x\<in>set xs. key x = Inr (f x)"
  shows "\<exists>r. max_from key best (f best) xs = Inr r
    \<and> ((r = best \<and> (\<forall>x\<in>set xs. f x \<le> f best))
       \<or> (\<exists>us vs. xs = us @ r # vs \<and> (\<forall>u\<in>set us. f u < f r) \<and> f best < f r
             \<and> (\<forall>v\<in>set vs. f v \<le> f r)))"
  using assms
proof (induction xs arbitrary: best)
  case Nil
  show ?case by simp
next
  case (Cons x xs)
  have kx: "key x = Inr (f x)" and rest: "\<forall>y\<in>set xs. key y = Inr (f y)"
    using Cons.prems by simp_all
  show ?case
  proof (cases "f x > f best")
    case True
    obtain r where r: "max_from key x (f x) xs = Inr r"
      and alt: "(r = x \<and> (\<forall>y\<in>set xs. f y \<le> f x))
         \<or> (\<exists>us vs. xs = us @ r # vs \<and> (\<forall>u\<in>set us. f u < f r) \<and> f x < f r
               \<and> (\<forall>v\<in>set vs. f v \<le> f r))"
      using Cons.IH [OF rest, of x] by blast
    have res: "max_from key best (f best) (x # xs) = Inr r"
      using True kx r by simp
    from alt have "\<exists>us vs. x # xs = us @ r # vs \<and> (\<forall>u\<in>set us. f u < f r) \<and> f best < f r
               \<and> (\<forall>v\<in>set vs. f v \<le> f r)"
    proof
      assume h: "r = x \<and> (\<forall>y\<in>set xs. f y \<le> f x)"
      then have "x # xs = [] @ r # xs \<and> (\<forall>u\<in>set []. f u < f r) \<and> f best < f r
          \<and> (\<forall>v\<in>set xs. f v \<le> f r)"
        using True by simp
      then show ?thesis by blast
    next
      assume "\<exists>us vs. xs = us @ r # vs \<and> (\<forall>u\<in>set us. f u < f r) \<and> f x < f r
               \<and> (\<forall>v\<in>set vs. f v \<le> f r)"
      then obtain us vs where h: "xs = us @ r # vs" "\<forall>u\<in>set us. f u < f r"
         "f x < f r" "\<forall>v\<in>set vs. f v \<le> f r" by blast
      then have "x # xs = (x # us) @ r # vs \<and> (\<forall>u\<in>set (x # us). f u < f r)
          \<and> f best < f r \<and> (\<forall>v\<in>set vs. f v \<le> f r)"
        using True by auto
      then show ?thesis by blast
    qed
    with res show ?thesis by blast
  next
    case False
    obtain r where r: "max_from key best (f best) xs = Inr r"
      and alt: "(r = best \<and> (\<forall>y\<in>set xs. f y \<le> f best))
         \<or> (\<exists>us vs. xs = us @ r # vs \<and> (\<forall>u\<in>set us. f u < f r) \<and> f best < f r
               \<and> (\<forall>v\<in>set vs. f v \<le> f r))"
      using Cons.IH [OF rest, of best] by blast
    have res: "max_from key best (f best) (x # xs) = Inr r"
      using False kx r by simp
    from alt have "(r = best \<and> (\<forall>y\<in>set (x # xs). f y \<le> f best))
         \<or> (\<exists>us vs. x # xs = us @ r # vs \<and> (\<forall>u\<in>set us. f u < f r) \<and> f best < f r
               \<and> (\<forall>v\<in>set vs. f v \<le> f r))"
    proof
      assume "r = best \<and> (\<forall>y\<in>set xs. f y \<le> f best)"
      then show ?thesis using False by auto
    next
      assume "\<exists>us vs. xs = us @ r # vs \<and> (\<forall>u\<in>set us. f u < f r) \<and> f best < f r
               \<and> (\<forall>v\<in>set vs. f v \<le> f r)"
      then obtain us vs where h: "xs = us @ r # vs" "\<forall>u\<in>set us. f u < f r"
         "f best < f r" "\<forall>v\<in>set vs. f v \<le> f r" by blast
      then have "x # xs = (x # us) @ r # vs \<and> (\<forall>u\<in>set (x # us). f u < f r)
          \<and> f best < f r \<and> (\<forall>v\<in>set vs. f v \<le> f r)"
        using False by auto
      then show ?thesis by blast
    qed
    with res show ?thesis by blast
  qed
qed

lemma max_key_split:
  assumes "items \<noteq> []" and keys: "\<forall>x\<in>set items. key x = Inr (f x)"
  shows "\<exists>r us vs. max_key key items = Inr r \<and> items = us @ r # vs
      \<and> (\<forall>u\<in>set us. f u < f r) \<and> (\<forall>v\<in>set vs. f v \<le> f r)"
proof -
  obtain best xs where items: "items = best # xs"
    using assms(1) by (cases items) auto
  have kb: "key best = Inr (f best)" and rest: "\<forall>x\<in>set xs. key x = Inr (f x)"
    using keys unfolding items by simp_all
  obtain r where r: "max_from key best (f best) xs = Inr r"
    and alt: "(r = best \<and> (\<forall>x\<in>set xs. f x \<le> f best))
       \<or> (\<exists>us vs. xs = us @ r # vs \<and> (\<forall>u\<in>set us. f u < f r) \<and> f best < f r
             \<and> (\<forall>v\<in>set vs. f v \<le> f r))"
    using max_from_first [OF rest, of best] by blast
  have res: "max_key key items = Inr r"
    unfolding items using kb r by simp
  from alt have "\<exists>us vs. items = us @ r # vs
      \<and> (\<forall>u\<in>set us. f u < f r) \<and> (\<forall>v\<in>set vs. f v \<le> f r)"
  proof
    assume "r = best \<and> (\<forall>x\<in>set xs. f x \<le> f best)"
    then have "items = [] @ r # xs \<and> (\<forall>u\<in>set []. f u < f r)
        \<and> (\<forall>v\<in>set xs. f v \<le> f r)" unfolding items by simp
    then show ?thesis by blast
  next
    assume "\<exists>us vs. xs = us @ r # vs \<and> (\<forall>u\<in>set us. f u < f r) \<and> f best < f r
             \<and> (\<forall>v\<in>set vs. f v \<le> f r)"
    then obtain us vs where h: "xs = us @ r # vs" "\<forall>u\<in>set us. f u < f r"
         "f best < f r" "\<forall>v\<in>set vs. f v \<le> f r" by blast
    then have "items = (best # us) @ r # vs \<and> (\<forall>u\<in>set (best # us). f u < f r)
        \<and> (\<forall>v\<in>set vs. f v \<le> f r)" unfolding items by auto
    then show ?thesis by blast
  qed
  with res show ?thesis by blast
qed

text \<open>A key that cannot be computed ends \<open>max\<close>: no item is returned.\<close>

lemma max_from_raises:
  assumes "x \<in> set xs" and "key x = Inl e"
  shows "\<exists>e'. max_from key best k xs = Inl e'"
  using assms
proof (induction xs arbitrary: best k)
  case Nil
  then show ?case by simp
next
  case (Cons y ys)
  show ?case
  proof (cases "key y")
    case (Inl e')
    then show ?thesis by simp
  next
    case (Inr t)
    then have "y \<noteq> x" using Cons.prems(2) by auto
    then have "x \<in> set ys" using Cons.prems(1) by simp
    then show ?thesis using Cons.IH Cons.prems(2) Inr by simp
  qed
qed

lemma max_key_raises:
  assumes "x \<in> set items" and "key x = Inl e"
  shows "\<exists>e'. max_key key items = Inl e'"
proof (cases items)
  case Nil
  then show ?thesis by simp
next
  case (Cons y ys)
  show ?thesis
  proof (cases "key y")
    case (Inl e')
    then show ?thesis unfolding Cons by simp
  next
    case (Inr t)
    then have "y \<noteq> x" using assms(2) by auto
    then have "x \<in> set ys" using assms(1) Cons by simp
    then show ?thesis
      unfolding Cons using max_from_raises [of x ys key e y t] assms(2) Inr by simp
  qed
qed

lemma max_key_cong:
  assumes "\<forall>x\<in>set items. key x = key' x"
  shows "max_key key items = max_key key' items"
proof -
  have "max_from key best k xs = max_from key' best k xs"
    if "\<forall>x\<in>set xs. key x = key' x" for best k xs
    using that by (induction xs arbitrary: best k) (auto split: sum.split)
  then show ?thesis using assms by (cases items) (auto split: sum.split)
qed

subsection \<open>Selecting the latest package\<close>

lemma glob_nupkg:
  "glob w directory ''*.nupkg'' =
     map (\<lambda>name. path_str (make_child_relpath (Path directory) name))
       (filter (suffix ''.nupkg'') (scandir w (path_str (Path directory))))"
proof -
  have "(\<lambda>name. fnmatch name ''*.nupkg'') = suffix ''.nupkg''"
    by (rule ext) (rule fnmatch_nupkg)
  then show ?thesis by (simp add: glob_def Let_def)
qed

lemma get_latest_package_none:
  assumes "glob (os s) directory ''*.nupkg'' = []"
  shows "get_latest_package directory s =
    (Inl (SystemExit 1),
     s\<lparr>trace := trace s @ [Scanned directory, Printed ''Error: No .nupkg files found.'']\<rparr>)"
  using assms by (simp add: get_latest_package_def print_def)

lemma get_latest_package_some:
  assumes "glob (os s) directory ''*.nupkg'' \<noteq> []"
  shows "get_latest_package directory s =
    (max_key (getctime (os s)) (glob (os s) directory ''*.nupkg''),
     s\<lparr>trace := trace s @ [Scanned directory]\<rparr>)"
  using assms by (simp add: get_latest_package_def)

lemma getctime_Some: "st_ctime w p = Some t \<Longrightarrow> getctime w p = Inr t"
  by (simp add: getctime_def)

lemma getctime_None: "st_ctime w p = None \<Longrightarrow> getctime w p = Inl (OSError p)"
  by (simp add: getctime_def)

lemma getctime_the: "st_ctime w p \<noteq> None \<Longrightarrow> getctime w p = Inr (the (st_ctime w p))"
  by (auto simp: getctime_def)

lemma suffix_nupkg_simps:
  "suffix ''.nupkg'' ''a.nupkg''" "suffix ''.nupkg'' ''b.nupkg''" "suffix ''.nupkg'' ''c.nupkg''"
  "suffix ''.nupkg'' ''d.nupkg''" "suffix ''.nupkg'' ''x.nupkg''"
  "\<not> suffix ''.nupkg'' ''notes.txt''"
  by (simp_all add: fnmatch_nupkg [symmetric])

lemma demo_scandir:
  "scandir demo_world ''rel'' = [''a.nupkg'', ''notes.txt'', ''b.nupkg'', ''c.nupkg'']"
  "scandir demo_world ''broken'' = [''x.nupkg'']"
  "scandir demo_world ''tied'' = [''a.nupkg'', ''b.nupkg'', ''x.nupkg'']"
  "scandir demo_world ''nested'' = [''d.nupkg'', ''x.nupkg'']"
  by (simp_all add: demo_world_def)

lemma demo_st_ctime:
  "st_ctime demo_world ''rel/a.nupkg'' = Some 10"
  "st_ctime demo_world ''rel/b.nupkg'' = Some 30"
  "st_ctime demo_world ''rel/c.nupkg'' = Some 30"
  "st_ctime demo_world ''broken/x.nupkg'' = None"
  "st_ctime demo_world ''tied/a.nupkg'' = Some 30"
  "st_ctime demo_world ''tied/b.nupkg'' = Some 30"
  "st_ctime demo_world ''tied/x.nupkg'' = None"
  "st_ctime demo_world ''nested/d.nupkg'' = Some 5"
  "st_ctime demo_world ''nested/x.nupkg'' = None"
  by (simp_all add: demo_world_def)

lemma demo_st_kind:
  "st_kind demo_world ''nested/d.nupkg'' = Directory"
  "st_kind demo_world ''nested/x.nupkg'' = OtherEntry"
  by (simp_all add: demo_world_def)

lemma demo_glob:
  "glob demo_world ''rel'' ''*.nupkg'' = [''rel/a.nupkg'', ''rel/b.nupkg'', ''rel/c.nupkg'']"
  "glob demo_world ''broken'' ''*.nupkg'' = [''broken/x.nupkg'']"
  "glob demo_world ''tied'' ''*.nupkg'' = [''tied/a.nupkg'', ''tied/b.nupkg'', ''tied/x.nupkg'']"
  "glob demo_world ''nested'' ''*.nupkg'' = [''nested/d.nupkg'', ''nested/x.nupkg'']"
  by (simp_all add: glob_nupkg path_str_demo demo_scandir suffix_nupkg_simps)

lemma demo_getctime:
  "getctime demo_world ''rel/a.nupkg'' = Inr 10"
  "getctime demo_world ''rel/b.nupkg'' = Inr 30"
  "getctime demo_world ''rel/c.nupkg'' = Inr 30"
  "getctime demo_world ''broken/x.nupkg'' = Inl (OSError ''broken/x.nupkg'')"
  "getctime demo_world ''tied/a.nupkg'' = Inr 30"
  "getctime demo_world ''tied/b.nupkg'' = Inr 30"
  "getctime demo_world ''tied/x.nupkg'' = Inl (OSError ''tied/x.nupkg'')"
  "getctime demo_world ''nested/d.nupkg'' = Inr 5"
  "getctime demo_world ''nested/x.nupkg'' = Inl (OSError ''nested/x.nupkg'')"
  by (simp_all add: getctime_def demo_st_ctime)

lemma demo_select:
  "get_latest_package ''rel'' \<lparr>os = demo_world, trace = []\<rparr> =
     (Inr ''rel/b.nupkg'', \<lparr>os = demo_world, trace = [Scanned ''rel'']\<rparr>)"
  "get_latest_package ''broken'' \<lparr>os = demo_world, trace = []\<rparr> =
     (Inl (OSError ''broken/x.nupkg''), \<lparr>os = demo_world, trace = [Scanned ''broken'']\<rparr>)"
  "get_latest_package ''tied'' \<lparr>os = demo_world, trace = []\<rparr> =
     (Inl (OSError ''tied/x.nupkg''), \<lparr>os = demo_world, trace = [Scanned ''tied'']\<rparr>)"
  "get_latest_package ''nested'' \<lparr>os = demo_world, trace = []\<rparr> =
     (Inl (OSError ''nested/x.nupkg''), \<lparr>os = demo_world, trace = [Scanned ''nested'']\<rparr>)"
  by (simp_all add: get_latest_package_def demo_glob demo_getctime)

lemma get_latest_package_stat_fails:
  assumes "q \<in> set (glob (os s) directory ''*.nupkg'')" and "st_ctime (os s) q = None"
  shows "\<exists>e. get_latest_package directory s = (Inl e, s\<lparr>trace := trace s @ [Scanned directory]\<rparr>)"
proof -
  let ?cands = "glob (os s) directory ''*.nupkg''"
  have ne: "?cands \<noteq> []" using assms(1) by auto
  have "getctime (os s) q = Inl (OSError q)" using assms(2) by (rule getctime_None)
  then obtain e where "max_key (getctime (os s)) ?cands = Inl e"
    using max_key_raises [of q ?cands "getctime (os s)"] assms(1) by blast
  then show ?thesis by (simp add: get_latest_package_some [OF ne])
qed

text \<open>
  Claim C1, as stated, fails: in the directory \<open>broken\<close> one entry matches (N = 1), it
  is a symbolic link whose target is gone, and \<open>get_latest_package\<close> returns no path:
  \<open>os.path.getctime\<close> raises \<open>OSError\<close> for it.
\<close>

theorem get_latest_package_broken_link:
  "filter (suffix ''.nupkg'') (scandir demo_world ''broken'') = [''x.nupkg'']
   \<and> glob demo_world ''broken'' ''*.nupkg'' = [''broken/x.nupkg'']
   \<and> st_ctime demo_world ''broken/x.nupkg'' = None
   \<and> get_latest_package ''broken'' \<lparr>os = demo_world, trace = []\<rparr> =
       (Inl (OSError ''broken/x.nupkg''), \<lparr>os = demo_world, trace = [Scanned ''broken'']\<rparr>)"
  by (simp add: demo_scandir suffix_nupkg_simps demo_glob demo_st_ctime demo_select)

text \<open>
  Claim C1, amended. In a directory with N \<ge> 1 entries whose name ends in \<open>.nupkg\<close>,
  each of which \<open>os.stat\<close> can read, \<open>get_latest_package\<close> returns one path; the
  path is one of the N matching entries of that directory, and its timestamp (the
  value of \<open>os.path.getctime\<close>) is the maximum of the timestamps of all of them.
\<close>

theorem get_latest_package_latest:
  assumes cands: "cands = map (\<lambda>name. path_str (make_child_relpath (Path directory) name))
                    (filter (suffix ''.nupkg'') (scandir (os s) (path_str (Path directory))))"
    and some: "1 \<le> length cands"
    and stat: "\<forall>q\<in>set cands. st_ctime (os s) q \<noteq> None"
  shows "\<exists>p. get_latest_package directory s = (Inr p, s\<lparr>trace := trace s @ [Scanned directory]\<rparr>)
    \<and> p \<in> set cands
    \<and> st_ctime (os s) p = Some (Max ((\<lambda>q. the (st_ctime (os s) q)) ` set cands))"
proof -
  let ?f = "\<lambda>q. the (st_ctime (os s) q)"
  have g: "glob (os s) directory ''*.nupkg'' = cands"
    using cands by (simp only: glob_nupkg)
  have ne: "cands \<noteq> []" using some by auto
  have keys: "\<forall>q\<in>set cands. getctime (os s) q = Inr (?f q)"
    using stat by (simp add: getctime_the)
  obtain p us vs where p: "max_key (getctime (os s)) cands = Inr p"
      and split: "cands = us @ p # vs"
      and before: "\<forall>u\<in>set us. ?f u < ?f p"
      and after: "\<forall>v\<in>set vs. ?f v \<le> ?f p"
    using max_key_split [OF ne keys] by blast
  have ret: "get_latest_package directory s = (Inr p, s\<lparr>trace := trace s @ [Scanned directory]\<rparr>)"
    using get_latest_package_some [of s directory] ne p unfolding g by simp
  have mem: "p \<in> set cands" unfolding split by simp
  have "Max (?f ` set cands) = ?f p"
  proof (rule Max_eqI)
    show "finite (?f ` set cands)" by simp
    show "?f p \<in> ?f ` set cands" using mem by (rule imageI)
    fix y assume "y \<in> ?f ` set cands"
    then obtain q where q: "q \<in> set cands" "y = ?f q" by blast
    then have "q \<in> set us \<or> q = p \<or> q \<in> set vs" unfolding split by auto
    then show "y \<le> ?f p" using before after q(2) by fastforce
  qed
  moreover have "st_ctime (os s) p = Some (?f p)" using stat mem by auto
  ultimately have "st_ctime (os s) p = Some (Max (?f ` set cands))" by simp
  with ret mem show ?thesis by blast
qed

theorem get_latest_package_latest_witness:
  "map (\<lambda>name. path_str (make_child_relpath (Path ''rel'') name))
      (filter (suffix ''.nupkg'') (scandir demo_world (path_str (Path ''rel''))))
     = [''rel/a.nupkg'', ''rel/b.nupkg'', ''rel/c.nupkg'']
   \<and> st_ctime demo_world ''rel/a.nupkg'' = Some 10
   \<and> st_ctime demo_world ''rel/b.nupkg'' = Some 30
   \<and> st_ctime demo_world ''rel/c.nupkg'' = Some 30
   \<and> fst (get_latest_package ''rel'' \<lparr>os = demo_world, trace = []\<rparr>) = Inr ''rel/b.nupkg''
   \<and> (\<exists>p. get_latest_package ''rel'' \<lparr>os = demo_world, trace = []\<rparr> =
            (Inr p, \<lparr>os = demo_world, trace = [Scanned ''rel'']\<rparr>)
        \<and> p \<in> {''rel/a.nupkg'', ''rel/b.nupkg'', ''rel/c.nupkg''}
        \<and> st_ctime demo_world p = Some 30)"
proof -
  let ?s = "\<lparr>os = demo_world, trace = []\<rparr>"
  let ?cands = "[''rel/a.nupkg'', ''rel/b.nupkg'', ''rel/c.nupkg'']"
  have c: "?cands = map (\<lambda>name. path_str (make_child_relpath (Path ''rel'') name))
      (filter (suffix ''.nupkg'') (scandir (os ?s) (path_str (Path ''rel''))))"
    by (simp add: path_str_demo demo_scandir suffix_nupkg_simps)
  have n: "1 \<le> length ?cands" by simp
  have stat: "\<forall>q\<in>set ?cands. st_ctime (os ?s) q \<noteq> None"
    by (simp add: demo_st_ctime)
  have m: "Max ((\<lambda>q. the (st_ctime (os ?s) q)) ` set ?cands) = 30"
    by (simp add: demo_st_ctime)
  have "\<exists>p. get_latest_package ''rel'' ?s = (Inr p, \<lparr>os = demo_world, trace = [Scanned ''rel'']\<rparr>)
        \<and> p \<in> {''rel/a.nupkg'', ''rel/b.nupkg'', ''rel/c.nupkg''}
        \<and> st_ctime demo_world p = Some 30"
    using get_latest_package_latest [OF c n stat] unfolding m by simp
  moreover have "fst (get_latest_package ''rel'' ?s) = Inr ''rel/b.nupkg''"
    by (simp add: demo_select)
  moreover have "map (\<lambda>name. path_str (make_child_relpath (Path ''rel'') name))
      (filter (suffix ''.nupkg'') (scandir demo_world (path_str (Path ''rel'')))) = ?cands"
    using c by simp
  ultimately show ?thesis by (simp only: demo_st_ctime simp_thms)
qed

text \<open>
  Claim C8, as stated, fails: in the directory \<open>tied\<close> the entries \<open>a.nupkg\<close> and
  \<open>b.nupkg\<close> share the maximal timestamp, the third matching entry is a symbolic link
  whose target is gone, and \<open>get_latest_package\<close> does not return \<open>a.nupkg\<close>: it
  raises \<open>OSError\<close>.
\<close>

theorem get_latest_package_tie_broken_link:
  "glob demo_world ''tied'' ''*.nupkg'' = [''tied/a.nupkg'', ''tied/b.nupkg'', ''tied/x.nupkg'']
   \<and> st_ctime demo_world ''tied/a.nupkg'' = Some 30
   \<and> st_ctime demo_world ''tied/b.nupkg'' = Some 30
   \<and> st_ctime demo_world ''tied/x.nupkg'' = None
   \<and> fst (get_latest_package ''tied'' \<lparr>os = demo_world, trace = []\<rparr>)
       = Inl (OSError ''tied/x.nupkg'')"
  by (simp add: demo_glob demo_st_ctime demo_select)

text \<open>
  Claim C8, amended. The tie-break is the scan order: when \<open>os.stat\<close> can read every
  matching entry, two or more of them share the maximal timestamp and \<open>i\<close> is the
  first position (in scan order) that attains it, \<open>get_latest_package\<close> returns the
  entry at position \<open>i\<close>. The result depends on the listing and the timestamps only:
  any state with the same listing and the same timestamps returns the same path.
\<close>

theorem get_latest_package_tie_break:
  assumes cands: "cands = map (\<lambda>name. path_str (make_child_relpath (Path directory) name))
                    (filter (suffix ''.nupkg'') (scandir (os s) (path_str (Path directory))))"
    and stat: "\<forall>q\<in>set cands. st_ctime (os s) q = Some (ctime q)"
    and ij: "i < j" "j < length cands"
    and tie: "ctime (cands ! j) = ctime (cands ! i)"
    and top: "\<forall>q\<in>set cands. ctime q \<le> ctime (cands ! i)"
    and first: "\<forall>h<i. ctime (cands ! h) < ctime (cands ! i)"
  shows "fst (get_latest_package directory s) = Inr (cands ! i)
    \<and> (\<forall>s' :: 'b world_scheme proc.
          scandir (os s') (path_str (Path directory)) = scandir (os s) (path_str (Path directory))
            \<and> (\<forall>q\<in>set cands. st_ctime (os s') q = st_ctime (os s) q)
          \<longrightarrow> fst (get_latest_package directory s') = fst (get_latest_package directory s))"
proof -
  from ij have ne: "cands \<noteq> []" by auto
  have g: "glob (os s) directory ''*.nupkg'' = cands"
    using cands by (simp only: glob_nupkg)
  have keys: "\<forall>q\<in>set cands. getctime (os s) q = Inr (ctime q)"
    using stat by (simp add: getctime_Some)
  obtain r us vs where r: "max_key (getctime (os s)) cands = Inr r"
      and split: "cands = us @ r # vs"
      and before: "\<forall>u\<in>set us. ctime u < ctime r"
      and after: "\<forall>v\<in>set vs. ctime v \<le> ctime r"
    using max_key_split [OF ne keys] by blast
  have ret: "fst (get_latest_package directory s) = Inr r"
    using get_latest_package_some [of s directory] ne r unfolding g by simp
  have at: "cands ! length us = r" unfolding split by simp
  have i_in: "cands ! i \<in> set cands" using ij by simp
  have eq: "ctime r = ctime (cands ! i)"
  proof (rule antisym)
    have "r \<in> set cands" unfolding split by simp
    then show "ctime r \<le> ctime (cands ! i)" using top by blast
    have "cands ! i \<in> set us \<or> cands ! i = r \<or> cands ! i \<in> set vs"
      using i_in unfolding split by auto
    then show "ctime (cands ! i) \<le> ctime r" using before after by fastforce
  qed
  have "length us = i"
  proof (rule ccontr)
    assume "length us \<noteq> i"
    then consider "length us < i" | "i < length us" by linarith
    then show False
    proof cases
      case 1
      then have "ctime (cands ! length us) < ctime (cands ! i)" using first by blast
      then show False using at eq by simp
    next
      case 2
      then have "cands ! i = us ! i" unfolding split by (simp add: nth_append)
      then have "cands ! i \<in> set us" using 2 by simp
      then show False using before eq by fastforce
    qed
  qed
  then have ri: "r = cands ! i" using at by simp
  have det: "fst (get_latest_package directory s') = fst (get_latest_package directory s)"
    if same: "scandir (os s') (path_str (Path directory)) = scandir (os s) (path_str (Path directory))"
      and same_keys: "\<forall>q\<in>set cands. st_ctime (os s') q = st_ctime (os s) q"
    for s' :: "'b world_scheme proc"
  proof -
    have g': "glob (os s') directory ''*.nupkg'' = cands"
      using cands same by (simp only: glob_nupkg)
    have "\<forall>q\<in>set cands. getctime (os s') q = getctime (os s) q"
      using same_keys by (simp add: getctime_def)
    then have "max_key (getctime (os s')) cands = max_key (getctime (os s)) cands"
      by (rule max_key_cong)
    then have "fst (get_latest_package directory s') = Inr r"
      using get_latest_package_some [of s' directory] ne r unfolding g' by simp
    then show ?thesis using ret by (simp only:)
  qed
  have first_max: "fst (get_latest_package directory s) = Inr (cands ! i)"
    using ret ri by (simp only:)
  have same_result: "\<forall>s' :: 'b world_scheme proc.
          scandir (os s') (path_str (Path directory)) = scandir (os s) (path_str (Path directory))
            \<and> (\<forall>q\<in>set cands. st_ctime (os s') q = st_ctime (os s) q)
          \<longrightarrow> fst (get_latest_package directory s') = fst (get_latest_package directory s)"
    using det by blast
  from first_max same_result show ?thesis by (rule conjI)
qed

theorem get_latest_package_tie_break_witness:
  "(1::nat) < 2
   \<and> map (\<lambda>name. path_str (make_child_relpath (Path ''rel'') name))
        (filter (suffix ''.nupkg'') (scandir demo_world (path_str (Path ''rel''))))
       = [''rel/a.nupkg'', ''rel/b.nupkg'', ''rel/c.nupkg'']
   \<and> st_ctime demo_world ''rel/a.nupkg'' = Some 10
   \<and> st_ctime demo_world ''rel/b.nupkg'' = Some 30
   \<and> st_ctime demo_world ''rel/c.nupkg'' = Some 30
   \<and> fst (get_latest_package ''rel'' \<lparr>os = demo_world, trace = []\<rparr>) = Inr ''rel/b.nupkg''"
proof -
  let ?s = "\<lparr>os = demo_world, trace = []\<rparr>"
  let ?cands = "[''rel/a.nupkg'', ''rel/b.nupkg'', ''rel/c.nupkg'']"
  let ?ctime = "\<lambda>q. the (st_ctime demo_world q)"
  have c: "?cands = map (\<lambda>name. path_str (make_child_relpath (Path ''rel'') name))
        (filter (suffix ''.nupkg'') (scandir (os ?s) (path_str (Path ''rel''))))"
    by (simp add: path_str_demo demo_scandir suffix_nupkg_simps)
  have stat: "\<forall>q\<in>set ?cands. st_ctime (os ?s) q = Some (?ctime q)"
    by (simp add: demo_st_ctime)
  have ij: "(1::nat) < 2" "2 < length ?cands" by simp_all
  have tie: "?ctime (?cands ! 2) = ?ctime (?cands ! 1)"
    by (simp add: demo_st_ctime)
  have top: "\<forall>q\<in>set ?cands. ?ctime q \<le> ?ctime (?cands ! 1)"
    by (simp add: demo_st_ctime)
  have first: "\<forall>h<1. ?ctime (?cands ! h) < ?ctime (?cands ! 1)"
    by (simp add: demo_st_ctime)
  have r: "fst (get_latest_package ''rel'' ?s) = Inr (?cands ! 1)"
    using get_latest_package_tie_break [of ?cands "''rel''" ?s ?ctime 1 2,
        OF c stat ij tie top first]
    by (rule conjunct1)
  have r': "fst (get_latest_package ''rel'' ?s) = Inr ''rel/b.nupkg''"
    using r by simp
  have c': "map (\<lambda>name. path_str (make_child_relpath (Path ''rel'') name))
        (filter (suffix ''.nupkg'') (scandir demo_world (path_str (Path ''rel'')))) = ?cands"
    using c by simp
  from c' r' show ?thesis by (simp only: demo_st_ctime simp_thms)
qed

section \<open>The paths through \<open>main\<close>\<close>

lemma run_command_fail:
  assumes "shell command (os s) = (c, w')" and "c \<noteq> 0"
  shows "run_command shell command s =
    (Inl (SystemExit c), \<lparr>os = w', trace = trace s @ [Ran command]\<rparr>)"
  using assms by (simp add: run_command_def)

lemma run_command_ok:
  assumes "shell command (os s) = (0, w')"
  shows "run_command shell command s = (Inr (), \<lparr>os = w', trace = trace s @ [Ran command]\<rparr>)"
  using assms by (simp add: run_command_def)

lemma and_then_Inl: "m s = (Inl e, s') \<Longrightarrow> and_then m f s = (Inl e, s')"
  by (simp add: and_then_def)

lemma and_then_Inr: "m s = (Inr x, s') \<Longrightarrow> and_then m f s = f x s'"
  by (simp add: and_then_def)

lemma proc_os_update: "s\<lparr>os := w\<rparr> = \<lparr>os = w, trace = trace s\<rparr>"
  by (cases s) simp

lemma main_missing_key:
  assumes "environ (load_dotenv (os st)) ''NUGET_API_KEY'' = None
    \<or> environ (load_dotenv (os st)) ''NUGET_API_KEY'' = Some []"
  shows "main load_dotenv shell st =
    (Inl (SystemExit 1),
     \<lparr>os = load_dotenv (os st), trace = trace st @ [Printed missing_key_message]\<rparr>)"
  using assms by (auto simp: main_def print_def proc_os_update)

lemma main_with_key:
  assumes "environ (load_dotenv (os st)) ''NUGET_API_KEY'' = Some k" and "k \<noteq> []"
  shows "main load_dotenv shell st =
    and_then (run_command shell build_command) (\<lambda>_.
    and_then (run_command shell pack_command) (\<lambda>_.
    and_then (get_latest_package release_dir) (\<lambda>package_path.
    run_command shell (push_command package_path k))))
      \<lparr>os = load_dotenv (os st), trace = trace st\<rparr>"
  using assms by (simp add: main_def proc_os_update)

lemma main_build_fails:
  assumes key: "environ (load_dotenv (os st)) ''NUGET_API_KEY'' = Some k" "k \<noteq> []"
    and build: "shell build_command (load_dotenv (os st)) = (c, w2)" "c \<noteq> 0"
  shows "main load_dotenv shell st =
    (Inl (SystemExit c), \<lparr>os = w2, trace = trace st @ [Ran build_command]\<rparr>)"
proof -
  let ?s1 = "\<lparr>os = load_dotenv (os st), trace = trace st\<rparr>"
  have "run_command shell build_command ?s1 =
      (Inl (SystemExit c), \<lparr>os = w2, trace = trace st @ [Ran build_command]\<rparr>)"
    using run_command_fail [of shell build_command ?s1 c w2] build by simp
  then show ?thesis
    unfolding main_with_key [of load_dotenv st k shell, OF key] by (rule and_then_Inl)
qed

lemma main_after_build:
  assumes key: "environ (load_dotenv (os st)) ''NUGET_API_KEY'' = Some k" "k \<noteq> []"
    and build: "shell build_command (load_dotenv (os st)) = (0, w2)"
  shows "main load_dotenv shell st =
    and_then (run_command shell pack_command) (\<lambda>_.
    and_then (get_latest_package release_dir) (\<lambda>package_path.
    run_command shell (push_command package_path k)))
      \<lparr>os = w2, trace = trace st @ [Ran build_command]\<rparr>"
proof -
  let ?s1 = "\<lparr>os = load_dotenv (os st), trace = trace st\<rparr>"
  have "run_command shell build_command ?s1 =
      (Inr (), \<lparr>os = w2, trace = trace st @ [Ran build_command]\<rparr>)"
    using run_command_ok [of shell build_command ?s1 w2] build by simp
  then show ?thesis
    unfolding main_with_key [of load_dotenv st k shell, OF key] by (rule and_then_Inr)
qed

lemma main_pack_fails:
  assumes key: "environ (load_dotenv (os st)) ''NUGET_API_KEY'' = Some k" "k \<noteq> []"
    and build: "shell build_command (load_dotenv (os st)) = (0, w2)"
    and pack: "shell pack_command w2 = (c, w3)" "c \<noteq> 0"
  shows "main load_dotenv shell st =
    (Inl (SystemExit c),
     \<lparr>os = w3, trace = trace st @ [Ran build_command, Ran pack_command]\<rparr>)"
proof -
  let ?s2 = "\<lparr>os = w2, trace = trace st @ [Ran build_command]\<rparr>"
  have "run_command shell pack_command ?s2 =
      (Inl (SystemExit c), \<lparr>os = w3, trace = trace st @ [Ran build_command, Ran pack_command]\<rparr>)"
    using run_command_fail [of shell pack_command ?s2 c w3] pack by simp
  then show ?thesis
    unfolding main_after_build [of load_dotenv st k shell w2, OF key build] by (rule and_then_Inl)
qed

lemma main_after_pack:
  assumes key: "environ (load_dotenv (os st)) ''NUGET_API_KEY'' = Some k" "k \<noteq> []"
    and build: "shell build_command (load_dotenv (os st)) = (0, w2)"
    and pack: "shell pack_command w2 = (0, w3)"
  shows "main load_dotenv shell st =
    and_then (get_latest_package release_dir) (\<lambda>package_path.
    run_command shell (push_command package_path k))
      \<lparr>os = w3, trace = trace st @ [Ran build_command, Ran pack_command]\<rparr>"
proof -
  let ?s2 = "\<lparr>os = w2, trace = trace st @ [Ran build_command]\<rparr>"
  have "run_command shell pack_command ?s2 =
      (Inr (), \<lparr>os = w3, trace = trace st @ [Ran build_command, Ran pack_command]\<rparr>)"
    using run_command_ok [of shell pack_command ?s2 w3] pack by simp
  then show ?thesis
    unfolding main_after_build [of load_dotenv st k shell w2, OF key build] by (rule and_then_Inr)
qed

lemma main_no_artifact:
  assumes key: "environ (load_dotenv (os st)) ''NUGET_API_KEY'' = Some k" "k \<noteq> []"
    and build: "shell build_command (load_dotenv (os st)) = (0, w2)"
    and pack: "shell pack_command w2 = (0, w3)"
    and none: "glob w3 release_dir ''*.nupkg'' = []"
  shows "main load_dotenv shell st =
    (Inl (SystemExit 1),
     \<lparr>os = w3, trace = trace st @ [Ran build_command, Ran pack_command, Scanned release_dir,
         Printed ''Error: No .nupkg files found.'']\<rparr>)"
proof -
  let ?s3 = "\<lparr>os = w3, trace = trace st @ [Ran build_command, Ran pack_command]\<rparr>"
  have "get_latest_package release_dir ?s3 =
      (Inl (SystemExit 1),
       \<lparr>os = w3, trace = trace st @ [Ran build_command, Ran pack_command, Scanned release_dir,
         Printed ''Error: No .nupkg files found.'']\<rparr>)"
    using get_latest_package_none [of ?s3 release_dir] none by simp
  then show ?thesis
    unfolding main_after_pack [of load_dotenv st k shell w2 w3, OF key build pack] by (rule and_then_Inl)
qed

section \<open>The run as a whole\<close>

lemma script_eq:
  "main load_dotenv shell \<lparr>os = w, trace = []\<rparr> = (r, s) \<Longrightarrow>
   script load_dotenv shell w = (exit_status r, s)"
  by (simp add: script_def)

lemma exit_status_simps:
  "exit_status (Inl (SystemExit n)) = n" "exit_status (Inr u) = 0"
  by (simp_all add: exit_status_def)

lemma push_command_neq:
  "push_command p k \<noteq> build_command" "push_command p k \<noteq> pack_command"
  by (simp_all add: push_command_def build_command_def pack_command_def)

lemma build_neq_pack: "build_command \<noteq> pack_command"
  by (simp add: build_command_def pack_command_def)

lemma mock_world_simps:
  "environ (mock_world key) ''NUGET_API_KEY'' = key"
  "scandir (mock_world key) d = []"
  "st_ctime (mock_world key) p = Some 0"
  by (simp_all add: mock_world_def)

lemma mock_shell_simps:
  "mock_shell b p u created build_command w = (b, w)"
  "mock_shell b p u created pack_command w =
     (p, w\<lparr>scandir := (scandir w)(release_dir := scandir w release_dir @ created)\<rparr>)"
  "mock_shell b p u created (push_command path k) w = (u, w)"
  using build_neq_pack push_command_neq [of path k]
  by (simp_all add: mock_shell_def)

text \<open>
  Claim C2. When the variable \<open>NUGET_API_KEY\<close> is absent from the environment that
  \<open>os.getenv\<close> reads (the process environment after \<open>load_dotenv()\<close>) or is the empty
  string, the run prints the message and ends with status 1; nothing was handed to the
  shell, and the world is the one \<open>load_dotenv\<close> left.
\<close>

theorem missing_credential_exits_first:
  assumes "environ (load_dotenv w) ''NUGET_API_KEY'' = None
    \<or> environ (load_dotenv w) ''NUGET_API_KEY'' = Some ''''"
  shows "script load_dotenv shell w =
      (1, \<lparr>os = load_dotenv w,
           trace = [Printed ''Error: NUGET_API_KEY environment variable is not set.'']\<rparr>)
    \<and> (\<forall>command. Ran command \<notin> set (trace (snd (script load_dotenv shell w))))"
proof -
  let ?st = "\<lparr>os = w, trace = []\<rparr>"
  have "main load_dotenv shell ?st =
      (Inl (SystemExit 1),
       \<lparr>os = load_dotenv (os ?st), trace = trace ?st @ [Printed missing_key_message]\<rparr>)"
    using assms by (intro main_missing_key) simp
  then have "script load_dotenv shell w =
      (1, \<lparr>os = load_dotenv w, trace = [Printed missing_key_message]\<rparr>)"
    by (simp add: script_def exit_status_simps)
  then show ?thesis by (simp add: missing_key_message_def)
qed

theorem missing_credential_exits_first_witness:
  "(environ (mock_world None) ''NUGET_API_KEY'' = None
      \<or> environ (mock_world None) ''NUGET_API_KEY'' = Some '''')
   \<and> (environ (mock_world (Some '''')) ''NUGET_API_KEY'' = None
      \<or> environ (mock_world (Some '''')) ''NUGET_API_KEY'' = Some '''')
   \<and> script (\<lambda>w. w) (mock_shell 0 0 0 [''pkg-1.0.0.nupkg'']) (mock_world None) =
      (1, \<lparr>os = mock_world None,
           trace = [Printed ''Error: NUGET_API_KEY environment variable is not set.'']\<rparr>)
   \<and> script (\<lambda>w. w) (mock_shell 0 0 0 [''pkg-1.0.0.nupkg'']) (mock_world (Some '''')) =
      (1, \<lparr>os = mock_world (Some ''''),
           trace = [Printed ''Error: NUGET_API_KEY environment variable is not set.'']\<rparr>)"
proof -
  have h1: "environ ((\<lambda>w. w) (mock_world None)) ''NUGET_API_KEY'' = None
      \<or> environ ((\<lambda>w. w) (mock_world None)) ''NUGET_API_KEY'' = Some ''''"
    by (simp add: mock_world_simps)
  have h2: "environ ((\<lambda>w. w) (mock_world (Some ''''))) ''NUGET_API_KEY'' = None
      \<or> environ ((\<lambda>w. w) (mock_world (Some ''''))) ''NUGET_API_KEY'' = Some ''''"
    by (simp add: mock_world_simps)
  from missing_credential_exits_first [of "\<lambda>w. w" "mock_world None", OF h1]
    missing_credential_exits_first [of "\<lambda>w. w" "mock_world (Some '''')", OF h2] h1 h2
  show ?thesis by simp
qed

text \<open>
  Claim C6. When the build step returns a non-zero status, the run ends there: the
  only event of the run is the build command, so the pack step, the directory scan and
  the publish step never happen. The run ends with \<open>sys.exit\<close> of the build step's code.
\<close>

theorem build_failure_stops_run:
  assumes key: "environ (load_dotenv w) ''NUGET_API_KEY'' = Some k" "k \<noteq> ''''"
    and build: "shell ''dotnet build -c Release src/'' (load_dotenv w) = (c, w2)" "c \<noteq> 0"
  shows "script load_dotenv shell w = (c, \<lparr>os = w2, trace = [Ran ''dotnet build -c Release src/'']\<rparr>)
    \<and> Ran pack_command \<notin> set (trace (snd (script load_dotenv shell w)))
    \<and> (\<forall>d. Scanned d \<notin> set (trace (snd (script load_dotenv shell w))))
    \<and> (\<forall>p k'. Ran (push_command p k') \<notin> set (trace (snd (script load_dotenv shell w))))"
proof -
  let ?st = "\<lparr>os = w, trace = []\<rparr>"
  have k: "environ (load_dotenv (os ?st)) ''NUGET_API_KEY'' = Some k" using key by simp
  have b: "shell build_command (load_dotenv (os ?st)) = (c, w2)"
    using build by (simp add: build_command_def)
  have "main load_dotenv shell ?st =
      (Inl (SystemExit c), \<lparr>os = w2, trace = trace ?st @ [Ran build_command]\<rparr>)"
    using k key(2) b build(2) by (rule main_build_fails)
  then have run: "script load_dotenv shell w = (c, \<lparr>os = w2, trace = [Ran build_command]\<rparr>)"
    by (simp add: script_def exit_status_simps)
  have "Ran pack_command \<notin> set [Ran build_command]"
    using build_neq_pack by simp
  moreover have "\<forall>p k'. Ran (push_command p k') \<notin> set [Ran build_command]"
    using push_command_neq by simp
  ultimately show ?thesis
    unfolding run by (simp add: build_command_def)
qed

theorem build_failure_stops_run_witness:
  "environ (mock_world (Some ''abc123'')) ''NUGET_API_KEY'' = Some ''abc123''
   \<and> mock_shell 3 0 0 [''pkg-1.0.0.nupkg''] ''dotnet build -c Release src/''
        (mock_world (Some ''abc123'')) = (3, mock_world (Some ''abc123''))
   \<and> script (\<lambda>w. w) (mock_shell 3 0 0 [''pkg-1.0.0.nupkg'']) (mock_world (Some ''abc123'')) =
      (3, \<lparr>os = mock_world (Some ''abc123''), trace = [Ran ''dotnet build -c Release src/'']\<rparr>)"
proof -
  let ?w = "mock_world (Some ''abc123'')"
  let ?sh = "mock_shell 3 0 0 [''pkg-1.0.0.nupkg'']"
  have key: "environ ((\<lambda>w. w) ?w) ''NUGET_API_KEY'' = Some ''abc123''" "''abc123'' \<noteq> ''''"
    by (simp_all add: mock_world_simps)
  have build: "?sh ''dotnet build -c Release src/'' ((\<lambda>w. w) ?w) = (3, ?w)" "(3::int) \<noteq> 0"
    using mock_shell_simps(1) [of 3 0 0 "[''pkg-1.0.0.nupkg'']" ?w]
    by (simp_all add: build_command_def)
  from build_failure_stops_run [of "\<lambda>w. w" ?w "''abc123''" ?sh 3 ?w, OF key build] key build
  show ?thesis by simp
qed

subsection \<open>Each outcome of a run\<close>

lemma proc_trace_update: "s\<lparr>trace := t\<rparr> = \<lparr>os = os s, trace = t\<rparr>"
  by (cases s) simp

lemma get_latest_package_InrD:
  assumes "fst (get_latest_package directory s) = Inr p"
  shows "get_latest_package directory s =
    (Inr p, \<lparr>os = os s, trace = trace s @ [Scanned directory]\<rparr>)"
proof (cases "glob (os s) directory ''*.nupkg'' = []")
  case True
  with assms show ?thesis by (simp add: get_latest_package_none)
next
  case False
  with assms show ?thesis
    by (simp add: get_latest_package_some proc_trace_update)
qed

lemma get_latest_package_fst:
  "fst (get_latest_package directory \<lparr>os = w, trace = t\<rparr>) =
   fst (get_latest_package directory \<lparr>os = w, trace = t'\<rparr>)"
  by (simp add: get_latest_package_def Let_def)

lemma main_selected:
  assumes key: "environ (load_dotenv (os st)) ''NUGET_API_KEY'' = Some k" "k \<noteq> []"
    and build: "shell build_command (load_dotenv (os st)) = (0, w2)"
    and pack: "shell pack_command w2 = (0, w3)"
    and sel: "fst (get_latest_package release_dir \<lparr>os = w3, trace = t\<rparr>) = Inr p"
  shows "main load_dotenv shell st =
    run_command shell (push_command p k)
      \<lparr>os = w3, trace = trace st @ [Ran build_command, Ran pack_command, Scanned release_dir]\<rparr>"
proof -
  let ?s3 = "\<lparr>os = w3, trace = trace st @ [Ran build_command, Ran pack_command]\<rparr>"
  have "fst (get_latest_package release_dir ?s3) = Inr p"
    using sel get_latest_package_fst [of release_dir w3 t] by simp
  then have "get_latest_package release_dir ?s3 =
      (Inr p, \<lparr>os = w3, trace = trace st @ [Ran build_command, Ran pack_command, Scanned release_dir]\<rparr>)"
    using get_latest_package_InrD [of release_dir ?s3 p] by simp
  then show ?thesis
    unfolding main_after_pack [of load_dotenv st k shell w2 w3, OF key build pack]
    by (rule and_then_Inr)
qed

lemma script_build_fails:
  assumes "environ (load_dotenv w) ''NUGET_API_KEY'' = Some k" "k \<noteq> []"
    and "shell build_command (load_dotenv w) = (c, w2)" "c \<noteq> 0"
  shows "script load_dotenv shell w = (c, \<lparr>os = w2, trace = [Ran build_command]\<rparr>)"
  using main_build_fails [of load_dotenv "\<lparr>os = w, trace = []\<rparr>" k shell c w2] assms
  by (simp add: script_def exit_status_simps)

lemma script_pack_fails:
  assumes "environ (load_dotenv w) ''NUGET_API_KEY'' = Some k" "k \<noteq> []"
    and "shell build_command (load_dotenv w) = (0, w2)"
    and "shell pack_command w2 = (c, w3)" "c \<noteq> 0"
  shows "script load_dotenv shell w =
    (c, \<lparr>os = w3, trace = [Ran build_command, Ran pack_command]\<rparr>)"
  using main_pack_fails [of load_dotenv "\<lparr>os = w, trace = []\<rparr>" k shell w2 c w3] assms
  by (simp add: script_def exit_status_simps)

lemma script_no_artifact:
  assumes "environ (load_dotenv w) ''NUGET_API_KEY'' = Some k" "k \<noteq> []"
    and "shell build_command (load_dotenv w) = (0, w2)"
    and "shell pack_command w2 = (0, w3)"
    and "glob w3 release_dir ''*.nupkg'' = []"
  shows "script load_dotenv shell w =
    (1, \<lparr>os = w3, trace = [Ran build_command, Ran pack_command, Scanned release_dir,
          Printed ''Error: No .nupkg files found.'']\<rparr>)"
  using main_no_artifact [of load_dotenv "\<lparr>os = w, trace = []\<rparr>" k shell w2 w3] assms
  by (simp add: script_def exit_status_simps)

lemma script_push:
  assumes key: "environ (load_dotenv w) ''NUGET_API_KEY'' = Some k" "k \<noteq> []"
    and build: "shell build_command (load_dotenv w) = (0, w2)"
    and pack: "shell pack_command w2 = (0, w3)"
    and sel: "fst (get_latest_package release_dir \<lparr>os = w3, trace = t\<rparr>) = Inr p"
    and push: "shell (push_command p k) w3 = (c, w4)"
  shows "script load_dotenv shell w =
    (c, \<lparr>os = w4, trace = [Ran build_command, Ran pack_command, Scanned release_dir,
          Ran (push_command p k)]\<rparr>)"
proof -
  let ?st = "\<lparr>os = w, trace = []\<rparr>"
  let ?s4 = "\<lparr>os = w3, trace = [Ran build_command, Ran pack_command, Scanned release_dir]\<rparr>"
  have m: "main load_dotenv shell ?st = run_command shell (push_command p k) ?s4"
    using main_selected [of load_dotenv ?st k shell w2 w3 t p] key build pack sel by simp
  show ?thesis
  proof (cases "c = 0")
    case True
    then have "run_command shell (push_command p k) ?s4 =
        (Inr (), \<lparr>os = w4, trace = trace ?s4 @ [Ran (push_command p k)]\<rparr>)"
      using run_command_ok [of shell "push_command p k" ?s4 w4] push by simp
    with m True show ?thesis by (simp add: script_def exit_status_simps)
  next
    case False
    then have "run_command shell (push_command p k) ?s4 =
        (Inl (SystemExit c), \<lparr>os = w4, trace = trace ?s4 @ [Ran (push_command p k)]\<rparr>)"
      using run_command_fail [of shell "push_command p k" ?s4 c w4] push by simp
    with m show ?thesis by (simp add: script_def exit_status_simps)
  qed
qed

lemma glob_empty:
  assumes "\<forall>name\<in>set (scandir w (path_str (Path directory))). \<not> suffix ''.nupkg'' name"
  shows "glob w directory ''*.nupkg'' = []"
  using assms by (simp add: glob_nupkg filter_empty_conv)

subsection \<open>The mock shell at work\<close>

lemma wait_status_small: "0 \<le> n \<Longrightarrow> n < 256 \<Longrightarrow> wait_status n = n"
  by (simp add: wait_status_def)

lemma mock_pack_world:
  "scandir (snd (mock_shell b p u created pack_command (mock_world key))) release_dir = created"
  "environ (snd (mock_shell b p u created pack_command (mock_world key))) = environ (mock_world key)"
  "st_ctime (snd (mock_shell b p u created pack_command (mock_world key))) q = Some 0"
  by (simp_all add: mock_shell_simps mock_world_simps)

lemma mock_pack_result:
  "mock_shell b p u created pack_command w =
     (p, snd (mock_shell b p u created pack_command w))"
  by (simp add: mock_shell_simps)

lemma mock_select_single:
  assumes "suffix ''.nupkg'' name"
  shows "fst (get_latest_package release_dir
      \<lparr>os = snd (mock_shell b p u [name] pack_command (mock_world key)), trace = t\<rparr>)
    = Inr (release_dir @ ''/'' @ name)"
  using assms
  by (simp add: get_latest_package_def Let_def glob_nupkg path_str_release_dir
      mock_pack_world getctime_def)

lemma suffix_pkg: "suffix ''.nupkg'' ''pkg-1.0.0.nupkg''" "suffix ''.nupkg'' ''my pkg.nupkg''"
  "\<not> suffix ''.nupkg'' ''readme.txt''"
  by (simp_all add: fnmatch_nupkg [symmetric])




text \<open>
  Claim C4. In a directory with no entry whose name ends in \<open>.nupkg\<close>,
  \<open>get_latest_package\<close> prints its message and raises \<open>SystemExit(1)\<close>. When that is
  the release directory as the pack step left it, the process ends with status 1 after
  the scan, and no publish command is handed to the shell.
\<close>

theorem no_artifact_found:
  assumes none: "\<forall>name\<in>set (scandir w3 (path_str (Path directory))). \<not> suffix ''.nupkg'' name"
  shows "(\<forall>t. get_latest_package directory \<lparr>os = w3, trace = t\<rparr> =
        (Inl (SystemExit 1),
         \<lparr>os = w3, trace = t @ [Scanned directory, Printed ''Error: No .nupkg files found.'']\<rparr>))
    \<and> (directory = ''src/Monads/bin/Release'' \<longrightarrow>
        (\<forall>load_dotenv shell w k w2.
           environ (load_dotenv w) ''NUGET_API_KEY'' = Some k \<and> k \<noteq> ''''
           \<and> shell build_command (load_dotenv w) = (0, w2)
           \<and> shell pack_command w2 = (0, w3) \<longrightarrow>
           script load_dotenv shell w =
             (1, \<lparr>os = w3, trace = [Ran build_command, Ran pack_command, Scanned directory,
                   Printed ''Error: No .nupkg files found.'']\<rparr>)
           \<and> wait_status (fst (script load_dotenv shell w)) = 1
           \<and> (\<forall>p k'. Ran (push_command p k')
                 \<notin> set (trace (snd (script load_dotenv shell w))))))"
proof (intro conjI allI impI)
  fix t
  have "glob (os \<lparr>os = w3, trace = t\<rparr>) directory ''*.nupkg'' = []"
    using none by (simp add: glob_empty)
  then show "get_latest_package directory \<lparr>os = w3, trace = t\<rparr> =
      (Inl (SystemExit 1),
       \<lparr>os = w3, trace = t @ [Scanned directory, Printed ''Error: No .nupkg files found.'']\<rparr>)"
    using get_latest_package_none [of "\<lparr>os = w3, trace = t\<rparr>" directory] by simp
next
  fix load_dotenv :: "'a world_scheme \<Rightarrow> 'a world_scheme"
    and shell :: "string \<Rightarrow> 'a world_scheme \<Rightarrow> int \<times> 'a world_scheme"
    and w :: "'a world_scheme" and k w2
  assume dir: "directory = ''src/Monads/bin/Release''"
    and run: "environ (load_dotenv w) ''NUGET_API_KEY'' = Some k \<and> k \<noteq> ''''
      \<and> shell build_command (load_dotenv w) = (0, w2)
      \<and> shell pack_command w2 = (0, w3)"
  have d: "directory = release_dir" using dir by (simp add: release_dir_def)
  have "glob w3 release_dir ''*.nupkg'' = []"
    using none d by (simp add: glob_empty)
  then have s: "script load_dotenv shell w =
      (1, \<lparr>os = w3, trace = [Ran build_command, Ran pack_command, Scanned release_dir,
            Printed ''Error: No .nupkg files found.'']\<rparr>)"
    using run script_no_artifact [of load_dotenv w k shell w2 w3] by simp
  then show "script load_dotenv shell w =
      (1, \<lparr>os = w3, trace = [Ran build_command, Ran pack_command, Scanned directory,
            Printed ''Error: No .nupkg files found.'']\<rparr>)"
    using d by simp
  show "wait_status (fst (script load_dotenv shell w)) = 1"
    unfolding s by (simp add: wait_status_def)
  fix p k'
  show "Ran (push_command p k') \<notin> set (trace (snd (script load_dotenv shell w)))"
    unfolding s using push_command_neq [of p k'] by simp
qed

theorem no_artifact_found_witness:
  "scandir (snd (mock_shell 0 0 0 [''readme.txt''] pack_command (mock_world (Some ''abc123''))))
       (path_str (Path ''src/Monads/bin/Release'')) = [''readme.txt'']
   \<and> \<not> suffix ''.nupkg'' ''readme.txt''
   \<and> script (\<lambda>w. w) (mock_shell 0 0 0 [''readme.txt'']) (mock_world (Some ''abc123'')) =
      (1, \<lparr>os = snd (mock_shell 0 0 0 [''readme.txt''] pack_command (mock_world (Some ''abc123''))),
           trace = [Ran build_command, Ran pack_command, Scanned ''src/Monads/bin/Release'',
             Printed ''Error: No .nupkg files found.'']\<rparr>)"
proof -
  let ?w = "mock_world (Some ''abc123'')"
  let ?sh = "mock_shell 0 0 0 [''readme.txt'']"
  let ?w3 = "snd (?sh pack_command ?w)"
  have listing: "scandir ?w3 (path_str (Path ''src/Monads/bin/Release'')) = [''readme.txt'']"
    using mock_pack_world(1) [of 0 0 0 "[''readme.txt'']" "Some ''abc123''"]
      path_str_release_dir(1)
    by (simp add: release_dir_def)
  have none: "\<forall>name\<in>set (scandir ?w3 (path_str (Path ''src/Monads/bin/Release''))).
      \<not> suffix ''.nupkg'' name"
    unfolding listing using suffix_pkg(3) by simp
  have run: "environ ((\<lambda>w. w) ?w) ''NUGET_API_KEY'' = Some ''abc123'' \<and> ''abc123'' \<noteq> ''''
      \<and> ?sh build_command ((\<lambda>w. w) ?w) = (0, ?w)
      \<and> ?sh pack_command ?w = (0, ?w3)"
    by (simp add: mock_shell_simps mock_world_simps)
  note rule = no_artifact_found [of ?w3 "''src/Monads/bin/Release''", OF none,
      THEN conjunct2, THEN mp, OF refl, THEN spec, THEN spec, THEN spec, THEN spec, THEN spec,
      THEN mp]
  have "script (\<lambda>w. w) ?sh ?w =
      (1, \<lparr>os = ?w3, trace = [Ran build_command, Ran pack_command,
            Scanned ''src/Monads/bin/Release'', Printed ''Error: No .nupkg files found.'']\<rparr>)"
    using rule [of "\<lambda>w. w" ?w "''abc123''" ?sh ?w, OF run] by (rule conjunct1)
  with listing suffix_pkg(3) show ?thesis by (simp only: simp_thms)
qed

text \<open>
  Claim C10. With credential \<open>k\<close> and selected path \<open>p\<close>, the string handed to the
  shell for the publish step is
  \<open>dotnet nuget push \<close> \<open>p\<close> \<open> -k \<close> \<open>k\<close> \<open> -s https://api.nuget.org/v3/index.json\<close>:
  the plain concatenation, with nothing quoted or escaped, given to the shell as one
  string. It is the fourth and last event of the run.
\<close>

theorem publish_command_string:
  assumes key: "environ (load_dotenv w) ''NUGET_API_KEY'' = Some k" "k \<noteq> ''''"
    and build: "shell ''dotnet build -c Release src/'' (load_dotenv w) = (0, w2)"
    and pack: "shell ''dotnet pack -c Release src/'' w2 = (0, w3)"
    and sel: "fst (get_latest_package ''src/Monads/bin/Release'' \<lparr>os = w3, trace = []\<rparr>) = Inr p"
  shows "script load_dotenv shell w =
      (fst (shell (''dotnet nuget push '' @ p @ '' -k '' @ k
                     @ '' -s https://api.nuget.org/v3/index.json'') w3),
       \<lparr>os = snd (shell (''dotnet nuget push '' @ p @ '' -k '' @ k
                     @ '' -s https://api.nuget.org/v3/index.json'') w3),
        trace = [Ran ''dotnet build -c Release src/'', Ran ''dotnet pack -c Release src/'',
                 Scanned ''src/Monads/bin/Release'',
                 Ran (''dotnet nuget push '' @ p @ '' -k '' @ k
                     @ '' -s https://api.nuget.org/v3/index.json'')]\<rparr>)"
proof -
  let ?cmd = "push_command p k"
  obtain c w4 where push: "shell ?cmd w3 = (c, w4)" by (cases "shell ?cmd w3")
  have "script load_dotenv shell w =
      (c, \<lparr>os = w4, trace = [Ran build_command, Ran pack_command, Scanned release_dir,
            Ran ?cmd]\<rparr>)"
    using script_push [of load_dotenv w k shell w2 w3 "[]" p c w4] key build pack sel push
    by (simp add: build_command_def pack_command_def release_dir_def)
  then have "script load_dotenv shell w =
      (fst (shell ?cmd w3),
       \<lparr>os = snd (shell ?cmd w3),
        trace = [Ran build_command, Ran pack_command, Scanned release_dir, Ran ?cmd]\<rparr>)"
    using push by simp
  then show ?thesis
    by (simp only: build_command_def pack_command_def release_dir_def push_command_def)
qed

theorem publish_command_string_witness:
  "environ (mock_world (Some ''k;id'')) ''NUGET_API_KEY'' = Some ''k;id''
   \<and> fst (get_latest_package ''src/Monads/bin/Release''
        \<lparr>os = snd (mock_shell 0 0 0 [''my pkg.nupkg''] pack_command (mock_world (Some ''k;id''))),
         trace = []\<rparr>) = Inr ''src/Monads/bin/Release/my pkg.nupkg''
   \<and> trace (snd (script (\<lambda>w. w) (mock_shell 0 0 0 [''my pkg.nupkg''])
        (mock_world (Some ''k;id'')))) =
      [Ran ''dotnet build -c Release src/'', Ran ''dotnet pack -c Release src/'',
       Scanned ''src/Monads/bin/Release'',
       Ran ''dotnet nuget push src/Monads/bin/Release/my pkg.nupkg -k k;id -s https://api.nuget.org/v3/index.json'']"
proof -
  let ?w = "mock_world (Some ''k;id'')"
  let ?sh = "mock_shell 0 0 0 [''my pkg.nupkg'']"
  let ?w3 = "snd (?sh pack_command ?w)"
  have key: "environ ((\<lambda>w. w) ?w) ''NUGET_API_KEY'' = Some ''k;id''" "''k;id'' \<noteq> ''''"
    by (simp_all add: mock_world_simps)
  have build: "?sh ''dotnet build -c Release src/'' ((\<lambda>w. w) ?w) = (0, ?w)"
    using mock_shell_simps(1) [of 0 0 0 "[''my pkg.nupkg'']" ?w]
    by (simp add: build_command_def)
  have pack: "?sh ''dotnet pack -c Release src/'' ?w = (0, ?w3)"
    using mock_pack_result [of 0 0 0 "[''my pkg.nupkg'']" ?w]
    by (simp add: pack_command_def)
  have sel: "fst (get_latest_package ''src/Monads/bin/Release'' \<lparr>os = ?w3, trace = []\<rparr>)
      = Inr ''src/Monads/bin/Release/my pkg.nupkg''"
    using mock_select_single [OF suffix_pkg(2), of 0 0 0 "Some ''k;id''" "[]"]
    by (simp add: release_dir_def)
  note r = publish_command_string [of "\<lambda>w. w" ?w "''k;id''" ?sh ?w ?w3
      "''src/Monads/bin/Release/my pkg.nupkg''", OF key build pack sel]
  have "trace (snd (script (\<lambda>w. w) ?sh ?w)) =
      [Ran ''dotnet build -c Release src/'', Ran ''dotnet pack -c Release src/'',
       Scanned ''src/Monads/bin/Release'',
       Ran ''dotnet nuget push src/Monads/bin/Release/my pkg.nupkg -k k;id -s https://api.nuget.org/v3/index.json'']"
    unfolding r by simp
  with key(1) sel show ?thesis by simp
qed

subsection \<open>A run that fails in the selection\<close>

lemma max_from_error_kind:
  "max_from (getctime w) best k xs = Inl e \<Longrightarrow> \<exists>p. e = OSError p"
proof (induction xs arbitrary: best k)
  case Nil
  then show ?case by simp
next
  case (Cons x xs)
  show ?case
  proof (cases "st_ctime w x")
    case None
    then show ?thesis using Cons.prems by (auto simp: getctime_def)
  next
    case (Some t)
    then show ?thesis using Cons.prems Cons.IH
      by (auto simp: getctime_def split: if_splits)
  qed
qed

lemma max_key_error_kind:
  assumes "max_key (getctime w) items = Inl e"
  shows "e = ValueError \<or> (\<exists>p. e = OSError p)"
proof (cases items)
  case Nil
  then show ?thesis using assms by simp
next
  case (Cons x xs)
  show ?thesis
  proof (cases "st_ctime w x")
    case None
    then show ?thesis using assms unfolding Cons by (auto simp: getctime_def)
  next
    case (Some t)
    then show ?thesis using assms max_from_error_kind [of w x t xs e]
      unfolding Cons by (auto simp: getctime_def)
  qed
qed

lemma get_latest_package_error:
  assumes "fst (get_latest_package directory s) = Inl e"
  shows "exit_status (Inl e) = 1"
proof (cases "glob (os s) directory ''*.nupkg'' = []")
  case True
  then show ?thesis using assms by (auto simp: get_latest_package_none exit_status_def)
next
  case False
  then have "max_key (getctime (os s)) (glob (os s) directory ''*.nupkg'') = Inl e"
    using assms by (simp add: get_latest_package_some)
  then have "e = ValueError \<or> (\<exists>p. e = OSError p)" by (rule max_key_error_kind)
  then show ?thesis by (auto simp: exit_status_def)
qed

lemma script_select_fails:
  assumes key: "environ (load_dotenv w) ''NUGET_API_KEY'' = Some k" "k \<noteq> []"
    and build: "shell build_command (load_dotenv w) = (0, w2)"
    and pack: "shell pack_command w2 = (0, w3)"
    and sel: "fst (get_latest_package release_dir \<lparr>os = w3, trace = t\<rparr>) = Inl e"
  shows "fst (script load_dotenv shell w) = 1"
proof -
  let ?st = "\<lparr>os = w, trace = []\<rparr>"
  let ?s3 = "\<lparr>os = w3, trace = [Ran build_command, Ran pack_command]\<rparr>"
  have e: "fst (get_latest_package release_dir ?s3) = Inl e"
    using sel get_latest_package_fst [of release_dir w3 t] by simp
  then obtain s' where "get_latest_package release_dir ?s3 = (Inl e, s')"
    by (cases "get_latest_package release_dir ?s3") auto
  then have "and_then (get_latest_package release_dir)
      (\<lambda>package_path. run_command shell (push_command package_path k)) ?s3 = (Inl e, s')"
    by (rule and_then_Inl)
  then have "main load_dotenv shell ?st = (Inl e, s')"
    using main_after_pack [of load_dotenv ?st k shell w2 w3] key build pack by simp
  then have "script load_dotenv shell w = (exit_status (Inl e), s')"
    by (rule script_eq)
  then show ?thesis using get_latest_package_error [OF e] by simp
qed

lemma script_missing_key:
  assumes "environ (load_dotenv w) ''NUGET_API_KEY'' = None
    \<or> environ (load_dotenv w) ''NUGET_API_KEY'' = Some []"
  shows "fst (script load_dotenv shell w) = 1"
  using main_missing_key [of load_dotenv "\<lparr>os = w, trace = []\<rparr>" shell] assms
  by (simp add: script_def exit_status_simps)

text \<open>
  Claim C5. A run that ends with \<open>exit(0)\<close> did exactly this, in this order: the build
  command, the pack command, the scan of the release directory, and the push command
  for the path the selection returned and the credential. Each step starts from the
  world the step before it left (\<open>subprocess.run\<close> returns when the command has
  ended), so no two steps overlap, and the trace of the run holds these four events
  and nothing else.
\<close>

theorem successful_run_sequence:
  assumes ok: "fst (script load_dotenv shell w) = 0"
  shows "\<exists>k w2 w3 p w4.
      environ (load_dotenv w) ''NUGET_API_KEY'' = Some k \<and> k \<noteq> ''''
    \<and> shell build_command (load_dotenv w) = (0, w2)
    \<and> shell pack_command w2 = (0, w3)
    \<and> get_latest_package release_dir \<lparr>os = w3, trace = [Ran build_command, Ran pack_command]\<rparr>
        = (Inr p, \<lparr>os = w3, trace = [Ran build_command, Ran pack_command, Scanned release_dir]\<rparr>)
    \<and> shell (push_command p k) w3 = (0, w4)
    \<and> script load_dotenv shell w =
        (0, \<lparr>os = w4, trace = [Ran build_command, Ran pack_command, Scanned release_dir,
              Ran (push_command p k)]\<rparr>)"
proof -
  have present: "environ (load_dotenv w) ''NUGET_API_KEY'' \<noteq> None"
  proof
    assume "environ (load_dotenv w) ''NUGET_API_KEY'' = None"
    then have "fst (script load_dotenv shell w) = 1"
      by (intro script_missing_key disjI1)
    with ok show False by simp
  qed
  have filled: "environ (load_dotenv w) ''NUGET_API_KEY'' \<noteq> Some []"
  proof
    assume "environ (load_dotenv w) ''NUGET_API_KEY'' = Some []"
    then have "fst (script load_dotenv shell w) = 1"
      by (intro script_missing_key disjI2)
    with ok show False by simp
  qed
  from present obtain k where k: "environ (load_dotenv w) ''NUGET_API_KEY'' = Some k"
    by auto
  with filled have key: "environ (load_dotenv w) ''NUGET_API_KEY'' = Some k" "k \<noteq> []"
    by auto
  obtain c2 w2 where b: "shell build_command (load_dotenv w) = (c2, w2)"
    by (cases "shell build_command (load_dotenv w)")
  have "c2 = 0"
  proof (rule ccontr)
    assume "c2 \<noteq> 0"
    then have "fst (script load_dotenv shell w) = c2"
      using script_build_fails [of load_dotenv w k shell c2 w2] key b by simp
    with ok \<open>c2 \<noteq> 0\<close> show False by simp
  qed
  then have build: "shell build_command (load_dotenv w) = (0, w2)" using b by simp
  obtain c3 w3 where p: "shell pack_command w2 = (c3, w3)"
    by (cases "shell pack_command w2")
  have "c3 = 0"
  proof (rule ccontr)
    assume "c3 \<noteq> 0"
    then have "fst (script load_dotenv shell w) = c3"
      using script_pack_fails [of load_dotenv w k shell w2 c3 w3] key build p by simp
    with ok \<open>c3 \<noteq> 0\<close> show False by simp
  qed
  then have pack: "shell pack_command w2 = (0, w3)" using p by simp
  let ?s3 = "\<lparr>os = w3, trace = [Ran build_command, Ran pack_command]\<rparr>"
  obtain path where sel: "fst (get_latest_package release_dir ?s3) = Inr path"
  proof (cases "fst (get_latest_package release_dir ?s3)")
    case (Inl e)
    then have "fst (script load_dotenv shell w) = 1"
      using key build pack by (intro script_select_fails)
    with ok show ?thesis by simp
  next
    case (Inr path)
    then show ?thesis by (rule that)
  qed
  have full: "get_latest_package release_dir ?s3 =
      (Inr path, \<lparr>os = w3, trace = [Ran build_command, Ran pack_command, Scanned release_dir]\<rparr>)"
    using get_latest_package_InrD [OF sel] by simp
  obtain c4 w4 where u: "shell (push_command path k) w3 = (c4, w4)"
    by (cases "shell (push_command path k) w3")
  have run: "script load_dotenv shell w =
      (c4, \<lparr>os = w4, trace = [Ran build_command, Ran pack_command, Scanned release_dir,
            Ran (push_command path k)]\<rparr>)"
    using key build pack sel u by (rule script_push)
  then have "c4 = 0" using ok by simp
  then have push: "shell (push_command path k) w3 = (0, w4)"
    and finished: "script load_dotenv shell w =
      (0, \<lparr>os = w4, trace = [Ran build_command, Ran pack_command, Scanned release_dir,
            Ran (push_command path k)]\<rparr>)"
    using u run by simp_all
  from key build pack full push finished show ?thesis
    by (intro exI [of _ k] exI [of _ w2] exI [of _ w3] exI [of _ path] exI [of _ w4] conjI)
qed

theorem successful_run_sequence_witness:
  "fst (script (\<lambda>w. w) (mock_shell 0 0 0 [''pkg-1.0.0.nupkg'']) (mock_world (Some ''abc123''))) = 0
   \<and> trace (snd (script (\<lambda>w. w) (mock_shell 0 0 0 [''pkg-1.0.0.nupkg''])
        (mock_world (Some ''abc123'')))) =
       [Ran build_command, Ran pack_command, Scanned release_dir,
        Ran (push_command ''src/Monads/bin/Release/pkg-1.0.0.nupkg'' ''abc123'')]"
proof -
  let ?w = "mock_world (Some ''abc123'')"
  let ?sh = "mock_shell 0 0 0 [''pkg-1.0.0.nupkg'']"
  let ?w3 = "snd (?sh pack_command ?w)"
  let ?p = "''src/Monads/bin/Release/pkg-1.0.0.nupkg''"
  have select: "fst (get_latest_package release_dir \<lparr>os = ?w3, trace = t\<rparr>) = Inr ?p" for t
    using mock_select_single [OF suffix_pkg(1), of 0 0 0 "Some ''abc123''" t]
    by (simp add: release_dir_def)
  have "script (\<lambda>w. w) ?sh ?w =
      (0, \<lparr>os = ?w3, trace = [Ran build_command, Ran pack_command, Scanned release_dir,
            Ran (push_command ?p ''abc123'')]\<rparr>)"
    using script_push [of "\<lambda>w. w" ?w "''abc123''" ?sh ?w ?w3 "[]" ?p 0 ?w3] select [of "[]"]
    by (simp add: mock_shell_simps mock_world_simps)
  then have ok: "fst (script (\<lambda>w. w) ?sh ?w) = 0" by simp
  obtain k w2 w3 p w4 where
      key: "environ ((\<lambda>w. w) ?w) ''NUGET_API_KEY'' = Some k"
      and build: "?sh build_command ((\<lambda>w. w) ?w) = (0, w2)"
      and pack: "?sh pack_command w2 = (0, w3)"
      and sel: "get_latest_package release_dir
          \<lparr>os = w3, trace = [Ran build_command, Ran pack_command]\<rparr>
        = (Inr p, \<lparr>os = w3, trace = [Ran build_command, Ran pack_command, Scanned release_dir]\<rparr>)"
      and r: "script (\<lambda>w. w) ?sh ?w =
        (0, \<lparr>os = w4, trace = [Ran build_command, Ran pack_command, Scanned release_dir,
              Ran (push_command p k)]\<rparr>)"
    using successful_run_sequence [OF ok] by blast
  have k: "k = ''abc123''" using key by (simp add: mock_world_simps)
  have w2: "w2 = ?w" using build by (simp add: mock_shell_simps)
  have w3: "w3 = ?w3" using pack unfolding w2 by (simp add: mock_shell_simps)
  have "fst (get_latest_package release_dir
      \<lparr>os = ?w3, trace = [Ran build_command, Ran pack_command]\<rparr>) = Inr p"
    using sel unfolding w3 by simp
  then have p: "p = ?p"
    using select [of "[Ran build_command, Ran pack_command]"] by simp
  have "trace (snd (script (\<lambda>w. w) ?sh ?w)) =
       [Ran build_command, Ran pack_command, Scanned release_dir, Ran (push_command ?p ''abc123'')]"
    unfolding r k p by simp
  with ok show ?thesis by (rule conjI)
qed

subsection \<open>A complete run\<close>



subsection \<open>Entries that are no regular files\<close>

lemma select_newest:
  assumes cands: "cands = map (\<lambda>name. path_str (make_child_relpath (Path directory) name))
                    (filter (suffix ''.nupkg'') (scandir w (path_str (Path directory))))"
    and ne: "cands \<noteq> []"
    and stat: "\<forall>q\<in>set cands. st_ctime w q \<noteq> None"
  shows "\<exists>p. p \<in> set cands
    \<and> (\<forall>q\<in>set cands. the (st_ctime w q) \<le> the (st_ctime w p))
    \<and> (\<forall>t. get_latest_package directory \<lparr>os = w, trace = t\<rparr> =
          (Inr p, \<lparr>os = w, trace = t @ [Scanned directory]\<rparr>))"
proof -
  let ?f = "\<lambda>q. the (st_ctime w q)"
  have g: "glob w directory ''*.nupkg'' = cands"
    using cands by (simp only: glob_nupkg)
  have keys: "\<forall>q\<in>set cands. getctime w q = Inr (?f q)"
    using stat by (simp add: getctime_the)
  obtain p us vs where p: "max_key (getctime w) cands = Inr p"
      and split: "cands = us @ p # vs"
      and before: "\<forall>u\<in>set us. ?f u < ?f p"
      and after: "\<forall>v\<in>set vs. ?f v \<le> ?f p"
    using max_key_split [OF ne keys] by blast
  have mem: "p \<in> set cands" unfolding split by simp
  have top: "\<forall>q\<in>set cands. ?f q \<le> ?f p"
  proof
    fix q assume "q \<in> set cands"
    then have "q \<in> set us \<or> q = p \<or> q \<in> set vs" unfolding split by auto
    then show "?f q \<le> ?f p" using before after by fastforce
  qed
  have ret: "\<forall>t. get_latest_package directory \<lparr>os = w, trace = t\<rparr> =
      (Inr p, \<lparr>os = w, trace = t @ [Scanned directory]\<rparr>)"
  proof
    fix t
    show "get_latest_package directory \<lparr>os = w, trace = t\<rparr> =
      (Inr p, \<lparr>os = w, trace = t @ [Scanned directory]\<rparr>)"
      using get_latest_package_some [of "\<lparr>os = w, trace = t\<rparr>" directory] ne p g by simp
  qed
  from mem top ret show ?thesis by blast
qed

lemma getctime_kind: "getctime (w\<lparr>st_kind := kinds\<rparr>) = getctime w"
  by (rule ext) (simp add: getctime_def)

lemma get_latest_package_kind:
  "fst (get_latest_package directory \<lparr>os = w\<lparr>st_kind := kinds\<rparr>, trace = t\<rparr>) =
   fst (get_latest_package directory \<lparr>os = w, trace = t\<rparr>)"
  by (simp add: get_latest_package_def Let_def glob_def getctime_kind)

text \<open>
  Claim C9, as stated, fails: the directory \<open>nested\<close> holds the subdirectory
  \<open>d.nupkg\<close> and no regular file with that extension, and the selection does not
  succeed: the other matching entry is a symbolic link whose target is gone, and
  \<open>os.path.getctime\<close> raises \<open>OSError\<close> for it.
\<close>

theorem get_latest_package_nested_broken_link:
  "glob demo_world ''nested'' ''*.nupkg'' = [''nested/d.nupkg'', ''nested/x.nupkg'']
   \<and> st_kind demo_world ''nested/d.nupkg'' = Directory
   \<and> st_kind demo_world ''nested/x.nupkg'' = OtherEntry
   \<and> st_ctime demo_world ''nested/d.nupkg'' = Some 5
   \<and> st_ctime demo_world ''nested/x.nupkg'' = None
   \<and> fst (get_latest_package ''nested'' \<lparr>os = demo_world, trace = []\<rparr>)
       = Inl (OSError ''nested/x.nupkg'')"
  by (simp add: demo_glob demo_st_kind demo_st_ctime demo_select)

text \<open>
  Claim C9, amended. \<open>get_latest_package\<close> considers every entry whose name matches
  \<open>*.nupkg\<close>, whatever its kind: in a directory that holds a subdirectory with that
  extension and no regular file with it, and in which \<open>os.stat\<close> can read every
  matching entry, the selection succeeds and returns a matching entry that is no
  regular file; the result does not depend on the kinds of the entries at all; it is
  the subdirectory when that is newer than every other matching entry (or the only
  one); and in a run that reaches the selection in the release directory, the path
  returned is the one in the push command.
\<close>

theorem directory_entries_are_candidates:
  assumes cands: "cands = map (\<lambda>name. path_str (make_child_relpath (Path directory) name))
                    (filter (suffix ''.nupkg'') (scandir w3 (path_str (Path directory))))"
    and sub: "sub \<in> set cands" "st_kind w3 sub = Directory"
    and noreg: "\<forall>q\<in>set cands. st_kind w3 q \<noteq> RegularFile"
    and stat: "\<forall>q\<in>set cands. st_ctime w3 q \<noteq> None"
  shows "\<exists>p. p \<in> set cands \<and> st_kind w3 p \<noteq> RegularFile
    \<and> (\<forall>t. get_latest_package directory \<lparr>os = w3, trace = t\<rparr> =
          (Inr p, \<lparr>os = w3, trace = t @ [Scanned directory]\<rparr>))
    \<and> (\<forall>kinds t. fst (get_latest_package directory \<lparr>os = w3\<lparr>st_kind := kinds\<rparr>, trace = t\<rparr>)
          = Inr p)
    \<and> ((\<forall>q\<in>set cands. q \<noteq> sub \<longrightarrow> the (st_ctime w3 q) < the (st_ctime w3 sub)) \<longrightarrow> p = sub)
    \<and> (directory = ''src/Monads/bin/Release'' \<longrightarrow>
        (\<forall>load_dotenv shell w k w2.
           environ (load_dotenv w) ''NUGET_API_KEY'' = Some k \<and> k \<noteq> ''''
           \<and> shell build_command (load_dotenv w) = (0, w2)
           \<and> shell pack_command w2 = (0, w3) \<longrightarrow>
           trace (snd (script load_dotenv shell w)) =
             [Ran build_command, Ran pack_command, Scanned directory,
              Ran (push_command p k)]))"
proof -
  have ne: "cands \<noteq> []" using sub(1) by auto
  obtain p where mem: "p \<in> set cands"
      and top: "\<forall>q\<in>set cands. the (st_ctime w3 q) \<le> the (st_ctime w3 p)"
      and ret: "\<forall>t. get_latest_package directory \<lparr>os = w3, trace = t\<rparr> =
          (Inr p, \<lparr>os = w3, trace = t @ [Scanned directory]\<rparr>)"
    using select_newest [OF cands ne stat] by blast
  have kind: "st_kind w3 p \<noteq> RegularFile" using noreg mem by blast
  have any_kind: "\<forall>kinds t.
      fst (get_latest_package directory \<lparr>os = w3\<lparr>st_kind := kinds\<rparr>, trace = t\<rparr>) = Inr p"
    using ret by (simp add: get_latest_package_kind)
  have newest: "(\<forall>q\<in>set cands. q \<noteq> sub \<longrightarrow> the (st_ctime w3 q) < the (st_ctime w3 sub))
      \<longrightarrow> p = sub"
  proof (intro impI, rule ccontr)
    assume newer: "\<forall>q\<in>set cands. q \<noteq> sub \<longrightarrow> the (st_ctime w3 q) < the (st_ctime w3 sub)"
      and "p \<noteq> sub"
    then have "the (st_ctime w3 p) < the (st_ctime w3 sub)" using mem by blast
    moreover have "the (st_ctime w3 sub) \<le> the (st_ctime w3 p)" using top sub(1) by blast
    ultimately show False by simp
  qed
  have run: "directory = ''src/Monads/bin/Release'' \<longrightarrow>
        (\<forall>load_dotenv shell w k w2.
           environ (load_dotenv w) ''NUGET_API_KEY'' = Some k \<and> k \<noteq> ''''
           \<and> shell build_command (load_dotenv w) = (0, w2)
           \<and> shell pack_command w2 = (0, w3) \<longrightarrow>
           trace (snd (script load_dotenv shell w)) =
             [Ran build_command, Ran pack_command, Scanned directory,
              Ran (push_command p k)])"
  proof (intro impI allI)
    fix load_dotenv :: "'a world_scheme \<Rightarrow> 'a world_scheme"
      and shell :: "string \<Rightarrow> 'a world_scheme \<Rightarrow> int \<times> 'a world_scheme"
      and w :: "'a world_scheme" and k w2
    assume dir: "directory = ''src/Monads/bin/Release''"
      and hyp: "environ (load_dotenv w) ''NUGET_API_KEY'' = Some k \<and> k \<noteq> ''''
        \<and> shell build_command (load_dotenv w) = (0, w2)
        \<and> shell pack_command w2 = (0, w3)"
    have d: "directory = release_dir" using dir by (simp add: release_dir_def)
    have sel: "fst (get_latest_package release_dir \<lparr>os = w3, trace = []\<rparr>) = Inr p"
      using ret d by simp
    obtain c w4 where push: "shell (push_command p k) w3 = (c, w4)"
      by (cases "shell (push_command p k) w3")
    have "script load_dotenv shell w =
        (c, \<lparr>os = w4, trace = [Ran build_command, Ran pack_command, Scanned release_dir,
              Ran (push_command p k)]\<rparr>)"
      using script_push [of load_dotenv w k shell w2 w3 "[]" p c w4] hyp sel push by simp
    then show "trace (snd (script load_dotenv shell w)) =
        [Ran build_command, Ran pack_command, Scanned directory, Ran (push_command p k)]"
      using d by simp
  qed
  from mem kind ret any_kind newest run show ?thesis
    by (intro exI [of _ p] conjI)
qed

theorem directory_entries_are_candidates_witness:
  "glob (snd (mock_shell 0 0 0 [''sub.nupkg''] pack_command
        ((mock_world (Some ''abc123''))\<lparr>st_kind := \<lambda>p. Directory\<rparr>)))
      ''src/Monads/bin/Release'' ''*.nupkg'' = [''src/Monads/bin/Release/sub.nupkg'']
   \<and> st_kind (snd (mock_shell 0 0 0 [''sub.nupkg''] pack_command
        ((mock_world (Some ''abc123''))\<lparr>st_kind := \<lambda>p. Directory\<rparr>)))
      ''src/Monads/bin/Release/sub.nupkg'' = Directory
   \<and> fst (get_latest_package ''src/Monads/bin/Release''
        \<lparr>os = snd (mock_shell 0 0 0 [''sub.nupkg''] pack_command
           ((mock_world (Some ''abc123''))\<lparr>st_kind := \<lambda>p. Directory\<rparr>)), trace = []\<rparr>)
      = Inr ''src/Monads/bin/Release/sub.nupkg''
   \<and> trace (snd (script (\<lambda>w. w) (mock_shell 0 0 0 [''sub.nupkg''])
        ((mock_world (Some ''abc123''))\<lparr>st_kind := \<lambda>p. Directory\<rparr>))) =
      [Ran build_command, Ran pack_command, Scanned ''src/Monads/bin/Release'',
       Ran (push_command ''src/Monads/bin/Release/sub.nupkg'' ''abc123'')]"
proof -
  let ?w = "(mock_world (Some ''abc123''))\<lparr>st_kind := \<lambda>p. Directory\<rparr>"
  let ?sh = "mock_shell 0 0 0 [''sub.nupkg'']"
  let ?w3 = "snd (?sh pack_command ?w)"
  let ?dir = "''src/Monads/bin/Release''"
  let ?sub = "''src/Monads/bin/Release/sub.nupkg''"
  have sfx: "suffix ''.nupkg'' ''sub.nupkg''"
    by (simp add: fnmatch_nupkg [symmetric])
  have w3: "scandir ?w3 release_dir = [''sub.nupkg'']" "st_kind ?w3 q = Directory"
    "st_ctime ?w3 q = Some 0" for q
    by (simp_all add: mock_shell_simps mock_world_def)
  have c: "[?sub] = map (\<lambda>name. path_str (make_child_relpath (Path ?dir) name))
      (filter (suffix ''.nupkg'') (scandir ?w3 (path_str (Path ?dir))))"
    using path_str_release_dir w3(1) sfx by (simp add: release_dir_def)
  have listing: "glob ?w3 ?dir ''*.nupkg'' = [?sub]"
    using c by (simp only: glob_nupkg)
  have sub: "?sub \<in> set [?sub]" "st_kind ?w3 ?sub = Directory"
    using w3(2) by simp_all
  have noreg: "\<forall>q\<in>set [?sub]. st_kind ?w3 q \<noteq> RegularFile"
    using w3(2) by simp
  have stat: "\<forall>q\<in>set [?sub]. st_ctime ?w3 q \<noteq> None"
    using w3(3) by simp
  obtain p where mem: "p \<in> set [?sub]"
      and ret: "\<forall>t. get_latest_package ?dir \<lparr>os = ?w3, trace = t\<rparr> =
          (Inr p, \<lparr>os = ?w3, trace = t @ [Scanned ?dir]\<rparr>)"
      and run: "?dir = ''src/Monads/bin/Release'' \<longrightarrow>
        (\<forall>load_dotenv shell w k w2.
           environ (load_dotenv w) ''NUGET_API_KEY'' = Some k \<and> k \<noteq> ''''
           \<and> shell build_command (load_dotenv w) = (0, w2)
           \<and> shell pack_command w2 = (0, ?w3) \<longrightarrow>
           trace (snd (script load_dotenv shell w)) =
             [Ran build_command, Ran pack_command, Scanned ?dir, Ran (push_command p k)])"
    using directory_entries_are_candidates [OF c sub noreg stat] by blast
  have p: "p = ?sub" using mem by simp
  have hyp: "environ ((\<lambda>w. w) ?w) ''NUGET_API_KEY'' = Some ''abc123'' \<and> ''abc123'' \<noteq> ''''
      \<and> ?sh build_command ((\<lambda>w. w) ?w) = (0, ?w)
      \<and> ?sh pack_command ?w = (0, ?w3)"
    by (simp add: mock_shell_simps mock_world_def)
  note rule = run [THEN mp, OF refl, THEN spec, THEN spec, THEN spec, THEN spec, THEN spec,
      THEN mp]
  have tr: "trace (snd (script (\<lambda>w. w) ?sh ?w)) =
      [Ran build_command, Ran pack_command, Scanned ?dir, Ran (push_command p ''abc123'')]"
    using rule [of "\<lambda>w. w" ?w "''abc123''" ?sh ?w, OF hyp] .
  have sel: "fst (get_latest_package ?dir \<lparr>os = ?w3, trace = []\<rparr>) = Inr ?sub"
    using ret p by simp
  from listing sub(2) sel tr [unfolded p] show ?thesis by (intro conjI)
qed

end
